theory Spec2Isabelle
  imports Complex_Main "HOL-Library.Word" "HOL-Library.Monad_Syntax"
begin

section \<open>The C boundary of the KLL sketch wrapper\<close>

text \<open>
  The repository is a C-callable wrapper (\<open>wrapper.cpp\<close>, \<open>wrapper.h\<close>) around the class
  template \<open>kll_sketch<T>\<close> of the DataSketches library, instantiated at \<open>float\<close> and
  at \<open>double\<close>. The wrapper hands out opaque handles (\<open>void*\<close>), guards them against
  null, and in some functions catches the exceptions of the library.

  The embedding keeps the three things the wrapper decides:
  \<^item> the null tests on handles and array pointers,
  \<^item> where a \<open>try { ... } catch (...)\<close> surrounds a call into the library and where
    it does not,
  \<^item> the loops that fill the result arrays.

  The library itself is not part of the wrapper's sources. Every member function the
  wrapper calls is a parameter of the embedded wrapper function that calls it; a member
  function returns \<open>Inr\<close> of its result or \<open>Inl\<close> of the exception it throws.
\<close>

subsection \<open>Handles and the heap of sketches\<close>

text \<open>
  A handle is an address; address 0 is the null pointer. The heap lists the objects
  allocated so far: the object of address \<open>p\<close> is entry \<open>p - 1\<close>, and an entry is
  \<open>None\<close> once the object is deleted. \<open>new\<close> appends, so it returns a fresh non-null
  address.
\<close>

type_synonym handle = nat

definition nullptr :: handle where
  "nullptr = 0"

type_synonym 's heap = "'s option list"

definition deref :: "'s heap \<Rightarrow> handle \<Rightarrow> 's option" where
  "deref H p = (if p = nullptr \<or> length H < p then None else H ! (p - 1))"

definition store :: "'s heap \<Rightarrow> handle \<Rightarrow> 's option \<Rightarrow> 's heap" where
  "store H p v = H[p - 1 := v]"

definition new_object :: "'s heap \<Rightarrow> 's \<Rightarrow> 's heap \<times> handle" where
  "new_object H s = (H @ [Some s], Suc (length H))"

text \<open>
  What a call of an exported function does: it returns, or an exception of the library
  leaves the \<open>extern "C"\<close> function (no \<open>catch\<close> on the way), or the behaviour is undefined
  (a non-null handle that is not a live sketch, an array shorter than the count passed
  with it).
\<close>

datatype ('e, 'r) outcome = Returned 'r | Escaped 'e | Undefined

text \<open>
  \<open>static_cast<kll_sketch<T>*>(sketch)->f(...)\<close> outside any \<open>try\<close> block.
\<close>

definition member_call :: "'s heap \<Rightarrow> handle \<Rightarrow> ('s \<Rightarrow> 'e + 'r) \<Rightarrow> ('e, 'r) outcome" where
  "member_call H p f =
     (case deref H p of
        None \<Rightarrow> Undefined
      | Some s \<Rightarrow> (case f s of Inl e \<Rightarrow> Escaped e | Inr r \<Rightarrow> Returned r))"

text \<open>The same for a member function that changes the sketch in place.\<close>

definition mutating_call :: "'s heap \<Rightarrow> handle \<Rightarrow> ('s \<Rightarrow> 'e + 's) \<Rightarrow> ('e, 's heap) outcome" where
  "mutating_call H p f =
     (case member_call H p f of
        Returned s' \<Rightarrow> Returned (store H p (Some s'))
      | Escaped e \<Rightarrow> Escaped e
      | Undefined \<Rightarrow> Undefined)"

subsection \<open>The type \<open>double\<close>\<close>

text \<open>
  Fractions and ranks are C \<open>double\<close>s. The wrapper computes with them in one place, the
  division \<open>static_cast<double>(i) / (num - 1)\<close>, whose divisor can be zero; so the model
  of \<open>double\<close> has the non-finite values. A finite double is carried as the rational it
  denotes.
\<close>

datatype double = Finite rat | PosInf | NegInf | NaN

definition round_half_even :: "rat \<Rightarrow> int" where
  "round_half_even x =
     (let f = \<lfloor>x\<rfloor>; d = x - of_int f
      in if d < 1 / 2 then f else if 1 / 2 < d then f + 1 else if even f then f else f + 1)"

text \<open>
  \<open>binade fuel q\<close> counts the doublings that bring a positive \<open>q\<close> to \<open>2^52\<close> or above;
  the quotient of two 32-bit integers is at least \<open>2^-32\<close>, so 84 doublings are enough.
\<close>

fun binade :: "nat \<Rightarrow> rat \<Rightarrow> nat" where
  "binade 0 q = 0"
| "binade (Suc fuel) q = (if 2 ^ 52 \<le> q then 0 else Suc (binade fuel (2 * q)))"

text \<open>Rounding to the nearest binary64 value, ties to even, for \<open>0 \<le> q < 2^53\<close>.\<close>

definition round_binary64 :: "rat \<Rightarrow> rat" where
  "round_binary64 q =
     (if q = 0 then 0
      else (let k = binade 84 q in of_int (round_half_even (q * 2 ^ k)) / 2 ^ k))"

text \<open>
  \<open>static_cast<double>(i) / d\<close> for \<open>uint32_t\<close> \<open>i\<close> and \<open>d\<close>: both conversions are exact,
  the IEEE division rounds the quotient, \<open>0 / 0\<close> is a NaN and \<open>i / 0\<close> is infinite.
\<close>

definition double_div_u32 :: "32 word \<Rightarrow> 32 word \<Rightarrow> double" where
  "double_div_u32 i d =
     (if d = 0 then (if i = 0 then NaN else PosInf)
      else Finite (round_binary64 (of_nat (unat i) / of_nat (unat d))))"


subsection \<open>The float sketch functions\<close>

text \<open>
  The item type \<open>'a\<close> stands for \<open>float\<close>; the wrapper only passes items through and
  returns \<open>0.0f\<close> as a default, so all it needs of the type is its zero.
  Array arguments are \<open>None\<close> for a null pointer and \<open>Some xs\<close> for an array of
  \<open>length xs\<close> elements; the arrays of one call do not overlap. An out-parameter
  \<open>size_t* size\<close> is \<open>None\<close> for a null pointer and \<open>Some n\<close> for a cell holding \<open>n\<close>.
  Values of type \<open>size_t\<close> are natural numbers.

  In \<open>new\<close>, \<open>new_with_k\<close> and \<open>deserialize\<close> the call into the library and the
  \<open>new kll_sketch<float>(...)\<close> around it sit in one \<open>try\<close> block, so \<open>Inl\<close> of the
  constructor or decoder parameter stands for any exception of that block, a failed
  allocation included.
\<close>

definition kll_float_sketch_new :: "('e + 's) \<Rightarrow> 's heap \<Rightarrow> 's heap \<times> handle" where
  "kll_float_sketch_new ctor H =
     (case ctor of Inr s \<Rightarrow> new_object H s | Inl e \<Rightarrow> (H, nullptr))"

definition kll_float_sketch_new_with_k ::
    "(16 word \<Rightarrow> 'e + 's) \<Rightarrow> 's heap \<Rightarrow> 16 word \<Rightarrow> 's heap \<times> handle" where
  "kll_float_sketch_new_with_k ctor H k =
     (case ctor k of Inr s \<Rightarrow> new_object H s | Inl e \<Rightarrow> (H, nullptr))"

definition kll_float_sketch_delete :: "'s heap \<Rightarrow> handle \<Rightarrow> ('e, 's heap) outcome" where
  "kll_float_sketch_delete H sketch =
     (if sketch \<noteq> nullptr
      then (case deref H sketch of
              None \<Rightarrow> Undefined
            | Some s \<Rightarrow> Returned (store H sketch None))
      else Returned H)"

definition kll_float_sketch_update ::
    "('s \<Rightarrow> 'a \<Rightarrow> 'e + 's) \<Rightarrow> 's heap \<Rightarrow> handle \<Rightarrow> 'a \<Rightarrow> ('e, 's heap) outcome" where
  "kll_float_sketch_update update H sketch v =
     (if sketch \<noteq> nullptr
      then mutating_call H sketch (\<lambda>s. update s v)
      else Returned H)"

definition kll_float_sketch_merge ::
    "('s \<Rightarrow> 's \<Rightarrow> 'e + 's) \<Rightarrow> 's heap \<Rightarrow> handle \<Rightarrow> handle \<Rightarrow> ('e, 's heap) outcome" where
  "kll_float_sketch_merge merge H sketch other =
     (if sketch \<noteq> nullptr \<and> other \<noteq> nullptr
      then (case deref H other of
              None \<Rightarrow> Undefined
            | Some t \<Rightarrow> mutating_call H sketch (\<lambda>s. merge s t))
      else Returned H)"

definition kll_float_sketch_is_empty ::
    "('s \<Rightarrow> 'e + bool) \<Rightarrow> 's heap \<Rightarrow> handle \<Rightarrow> ('e, bool) outcome" where
  "kll_float_sketch_is_empty is_empty H sketch =
     (if sketch \<noteq> nullptr then member_call H sketch is_empty else Returned True)"

definition kll_float_sketch_get_k ::
    "('s \<Rightarrow> 'e + 16 word) \<Rightarrow> 's heap \<Rightarrow> handle \<Rightarrow> ('e, 16 word) outcome" where
  "kll_float_sketch_get_k get_k H sketch =
     (if sketch \<noteq> nullptr then member_call H sketch get_k else Returned 0)"

definition kll_float_sketch_get_n ::
    "('s \<Rightarrow> 'e + 64 word) \<Rightarrow> 's heap \<Rightarrow> handle \<Rightarrow> ('e, 64 word) outcome" where
  "kll_float_sketch_get_n get_n H sketch =
     (if sketch \<noteq> nullptr then member_call H sketch get_n else Returned 0)"

definition kll_float_sketch_get_num_retained ::
    "('s \<Rightarrow> 'e + 32 word) \<Rightarrow> 's heap \<Rightarrow> handle \<Rightarrow> ('e, 32 word) outcome" where
  "kll_float_sketch_get_num_retained get_num_retained H sketch =
     (if sketch \<noteq> nullptr then member_call H sketch get_num_retained else Returned 0)"

definition kll_float_sketch_is_estimation_mode ::
    "('s \<Rightarrow> 'e + bool) \<Rightarrow> 's heap \<Rightarrow> handle \<Rightarrow> ('e, bool) outcome" where
  "kll_float_sketch_is_estimation_mode is_estimation_mode H sketch =
     (if sketch \<noteq> nullptr then member_call H sketch is_estimation_mode else Returned False)"

definition kll_float_sketch_get_min_value ::
    "('s \<Rightarrow> 'e + 'a) \<Rightarrow> 's heap \<Rightarrow> handle \<Rightarrow> ('e, 'a::zero) outcome" where
  "kll_float_sketch_get_min_value get_min_item H sketch =
     (if sketch \<noteq> nullptr then member_call H sketch get_min_item else Returned 0)"

definition kll_float_sketch_get_max_value ::
    "('s \<Rightarrow> 'e + 'a) \<Rightarrow> 's heap \<Rightarrow> handle \<Rightarrow> ('e, 'a::zero) outcome" where
  "kll_float_sketch_get_max_value get_max_item H sketch =
     (if sketch \<noteq> nullptr then member_call H sketch get_max_item else Returned 0)"

definition kll_float_sketch_get_quantile ::
    "('s \<Rightarrow> double \<Rightarrow> 'e + 'a) \<Rightarrow> 's heap \<Rightarrow> handle \<Rightarrow> double \<Rightarrow> ('e, 'a::zero) outcome" where
  "kll_float_sketch_get_quantile get_quantile H sketch fraction =
     (if sketch \<noteq> nullptr
      then member_call H sketch (\<lambda>s. get_quantile s fraction)
      else Returned 0)"

definition kll_float_sketch_get_rank ::
    "('s \<Rightarrow> 'a \<Rightarrow> 'e + double) \<Rightarrow> 's heap \<Rightarrow> handle \<Rightarrow> 'a \<Rightarrow> ('e, double) outcome" where
  "kll_float_sketch_get_rank get_rank H sketch v =
     (if sketch \<noteq> nullptr
      then member_call H sketch (\<lambda>s. get_rank s v)
      else Returned (Finite 0))"

text \<open>
  \<open>serialize\<close> returns the result pointer and the cell \<open>*size\<close> as the call leaves it.
  \<open>new_array n\<close> tells whether \<open>new uint8_t[n]\<close> succeeds; when it throws, \<open>*size\<close> is
  already written.
\<close>

definition kll_float_sketch_serialize ::
    "('s \<Rightarrow> 'e + 8 word list) \<Rightarrow> (nat \<Rightarrow> bool) \<Rightarrow> 's heap \<Rightarrow> handle \<Rightarrow> nat option
      \<Rightarrow> ('e, 8 word list option \<times> nat option) outcome" where
  "kll_float_sketch_serialize serialize new_array H sketch size_out =
     (if sketch = nullptr \<or> size_out = None then Returned (None, size_out)
      else (case deref H sketch of
              None \<Rightarrow> Undefined
            | Some s \<Rightarrow>
                (case serialize s of
                   Inr bytes \<Rightarrow>
                     (if new_array (length bytes)
                      then Returned (Some bytes, Some (length bytes))
                      else Returned (None, Some (length bytes)))
                 | Inl e \<Rightarrow> Returned (None, size_out))))"

text \<open>
  \<open>deserialize\<close> passes the first \<open>size\<close> bytes at \<open>data\<close> to the library; a \<open>size\<close>
  beyond the end of the array lets the library read out of bounds.
\<close>

definition kll_float_sketch_deserialize ::
    "(8 word list \<Rightarrow> 'e + 's) \<Rightarrow> 's heap \<Rightarrow> 8 word list option \<Rightarrow> nat
      \<Rightarrow> ('e, 's heap \<times> handle) outcome" where
  "kll_float_sketch_deserialize deserialize H data sz =
     (case data of
        None \<Rightarrow> Returned (H, nullptr)
      | Some bytes \<Rightarrow>
          (if sz = 0 then Returned (H, nullptr)
           else if length bytes < sz then Undefined
           else (case deserialize (take sz bytes) of
                   Inr s \<Rightarrow> Returned (new_object H s)
                 | Inl e \<Rightarrow> Returned (H, nullptr))))"

text \<open>
  The loop of \<open>get_quantiles\<close>, inside its \<open>try\<close> block: an exception of \<open>get_quantile\<close>
  ends the loop and the function returns what the array holds by then.
\<close>

function kll_float_sketch_get_quantiles_loop ::
    "('s \<Rightarrow> double \<Rightarrow> 'e + 'a) \<Rightarrow> 's \<Rightarrow> double list \<Rightarrow> nat \<Rightarrow> nat \<Rightarrow> 'a list
      \<Rightarrow> ('e, 'a list option) outcome" where
  "kll_float_sketch_get_quantiles_loop get_quantile s fractions num_fractions i results =
     (if i < num_fractions
      then (if length fractions \<le> i then Undefined
            else (case get_quantile s (fractions ! i) of
                    Inl e \<Rightarrow> Returned (Some results)
                  | Inr v \<Rightarrow>
                      (if length results \<le> i then Undefined
                       else kll_float_sketch_get_quantiles_loop get_quantile s fractions
                              num_fractions (i + 1) (results[i := v]))))
      else Returned (Some results))"
  by pat_completeness auto
termination
  by (relation "measure (\<lambda>(get_quantile, s, fractions, num_fractions, i, results).
        num_fractions - i)") auto

definition kll_float_sketch_get_quantiles ::
    "('s \<Rightarrow> double \<Rightarrow> 'e + 'a) \<Rightarrow> 's heap \<Rightarrow> handle \<Rightarrow> double list option \<Rightarrow> nat
      \<Rightarrow> 'a list option \<Rightarrow> ('e, 'a list option) outcome" where
  "kll_float_sketch_get_quantiles get_quantile H sketch fractions num_fractions results =
     (if sketch = nullptr \<or> fractions = None \<or> results = None \<or> num_fractions = 0
      then Returned results
      else (case deref H sketch of
              None \<Rightarrow> Undefined
            | Some s \<Rightarrow>
                kll_float_sketch_get_quantiles_loop get_quantile s (the fractions)
                  num_fractions 0 (the results)))"

text \<open>
  The loop of \<open>get_quantiles_evenly_spaced\<close>. The counter is a \<open>uint32_t\<close> below
  \<open>num\<close>, so \<open>++i\<close> does not wrap; \<open>num - 1\<close> is \<open>uint32_t\<close> arithmetic.
\<close>

lemma unat_succ_below:
  fixes i :: "'w::len word"
  assumes "i < num"
  shows "unat (i + 1) = Suc (unat i)"
proof -
  have "i \<noteq> - 1"
    using assms by (metis word_order.extremum_strict)
  then have "1 + i \<noteq> 0"
    by (metis add.commute add_eq_0_iff)
  then show ?thesis
    by (simp add: unatSuc add.commute)
qed

lemma loop_counter_decreases:
  fixes i :: "'w::len word"
  assumes "i < num"
  shows "unat num - unat (i + 1) < unat num - unat i"
  using assms unat_succ_below [OF assms] by (simp add: word_less_nat_alt)

function kll_float_sketch_get_quantiles_evenly_spaced_loop ::
    "('s \<Rightarrow> double \<Rightarrow> 'e + 'a) \<Rightarrow> 's \<Rightarrow> 32 word \<Rightarrow> 32 word \<Rightarrow> 'a list
      \<Rightarrow> ('e, 'a list option) outcome" where
  "kll_float_sketch_get_quantiles_evenly_spaced_loop get_quantile s num i results =
     (if i < num
      then (case get_quantile s (double_div_u32 i (num - 1)) of
              Inl e \<Rightarrow> Returned (Some results)
            | Inr v \<Rightarrow>
                (if length results \<le> unat i then Undefined
                 else kll_float_sketch_get_quantiles_evenly_spaced_loop get_quantile s num
                        (i + 1) (results[unat i := v])))
      else Returned (Some results))"
  by pat_completeness auto
termination
  apply (relation "measure (\<lambda>(get_quantile, s, num, i, results). unat num - unat i)")
   apply simp
  apply (simp add: loop_counter_decreases)
  done

definition kll_float_sketch_get_quantiles_evenly_spaced ::
    "('s \<Rightarrow> double \<Rightarrow> 'e + 'a) \<Rightarrow> 's heap \<Rightarrow> handle \<Rightarrow> 32 word \<Rightarrow> 'a list option
      \<Rightarrow> ('e, 'a list option) outcome" where
  "kll_float_sketch_get_quantiles_evenly_spaced get_quantile H sketch num results =
     (if sketch = nullptr \<or> results = None \<or> num = 0
      then Returned results
      else (case deref H sketch of
              None \<Rightarrow> Undefined
            | Some s \<Rightarrow>
                kll_float_sketch_get_quantiles_evenly_spaced_loop get_quantile s num 0
                  (the results)))"

subsection \<open>The double sketch functions\<close>

text \<open>
  The second half of \<open>wrapper.cpp\<close>, with \<open>kll_sketch<double>\<close>: here the item type
  \<open>'a\<close> stands for \<open>double\<close> and the defaults are \<open>0.0\<close>.
\<close>

definition kll_double_sketch_new :: "('e + 's) \<Rightarrow> 's heap \<Rightarrow> 's heap \<times> handle" where
  "kll_double_sketch_new ctor H =
     (case ctor of Inr s \<Rightarrow> new_object H s | Inl e \<Rightarrow> (H, nullptr))"

definition kll_double_sketch_new_with_k ::
    "(16 word \<Rightarrow> 'e + 's) \<Rightarrow> 's heap \<Rightarrow> 16 word \<Rightarrow> 's heap \<times> handle" where
  "kll_double_sketch_new_with_k ctor H k =
     (case ctor k of Inr s \<Rightarrow> new_object H s | Inl e \<Rightarrow> (H, nullptr))"

definition kll_double_sketch_delete :: "'s heap \<Rightarrow> handle \<Rightarrow> ('e, 's heap) outcome" where
  "kll_double_sketch_delete H sketch =
     (if sketch \<noteq> nullptr
      then (case deref H sketch of
              None \<Rightarrow> Undefined
            | Some s \<Rightarrow> Returned (store H sketch None))
      else Returned H)"

definition kll_double_sketch_update ::
    "('s \<Rightarrow> 'a \<Rightarrow> 'e + 's) \<Rightarrow> 's heap \<Rightarrow> handle \<Rightarrow> 'a \<Rightarrow> ('e, 's heap) outcome" where
  "kll_double_sketch_update update H sketch v =
     (if sketch \<noteq> nullptr
      then mutating_call H sketch (\<lambda>s. update s v)
      else Returned H)"

definition kll_double_sketch_merge ::
    "('s \<Rightarrow> 's \<Rightarrow> 'e + 's) \<Rightarrow> 's heap \<Rightarrow> handle \<Rightarrow> handle \<Rightarrow> ('e, 's heap) outcome" where
  "kll_double_sketch_merge merge H sketch other =
     (if sketch \<noteq> nullptr \<and> other \<noteq> nullptr
      then (case deref H other of
              None \<Rightarrow> Undefined
            | Some t \<Rightarrow> mutating_call H sketch (\<lambda>s. merge s t))
      else Returned H)"

definition kll_double_sketch_is_empty ::
    "('s \<Rightarrow> 'e + bool) \<Rightarrow> 's heap \<Rightarrow> handle \<Rightarrow> ('e, bool) outcome" where
  "kll_double_sketch_is_empty is_empty H sketch =
     (if sketch \<noteq> nullptr then member_call H sketch is_empty else Returned True)"

definition kll_double_sketch_get_k ::
    "('s \<Rightarrow> 'e + 16 word) \<Rightarrow> 's heap \<Rightarrow> handle \<Rightarrow> ('e, 16 word) outcome" where
  "kll_double_sketch_get_k get_k H sketch =
     (if sketch \<noteq> nullptr then member_call H sketch get_k else Returned 0)"

definition kll_double_sketch_get_n ::
    "('s \<Rightarrow> 'e + 64 word) \<Rightarrow> 's heap \<Rightarrow> handle \<Rightarrow> ('e, 64 word) outcome" where
  "kll_double_sketch_get_n get_n H sketch =
     (if sketch \<noteq> nullptr then member_call H sketch get_n else Returned 0)"

definition kll_double_sketch_get_num_retained ::
    "('s \<Rightarrow> 'e + 32 word) \<Rightarrow> 's heap \<Rightarrow> handle \<Rightarrow> ('e, 32 word) outcome" where
  "kll_double_sketch_get_num_retained get_num_retained H sketch =
     (if sketch \<noteq> nullptr then member_call H sketch get_num_retained else Returned 0)"

definition kll_double_sketch_is_estimation_mode ::
    "('s \<Rightarrow> 'e + bool) \<Rightarrow> 's heap \<Rightarrow> handle \<Rightarrow> ('e, bool) outcome" where
  "kll_double_sketch_is_estimation_mode is_estimation_mode H sketch =
     (if sketch \<noteq> nullptr then member_call H sketch is_estimation_mode else Returned False)"

definition kll_double_sketch_get_min_value ::
    "('s \<Rightarrow> 'e + 'a) \<Rightarrow> 's heap \<Rightarrow> handle \<Rightarrow> ('e, 'a::zero) outcome" where
  "kll_double_sketch_get_min_value get_min_item H sketch =
     (if sketch \<noteq> nullptr then member_call H sketch get_min_item else Returned 0)"

definition kll_double_sketch_get_max_value ::
    "('s \<Rightarrow> 'e + 'a) \<Rightarrow> 's heap \<Rightarrow> handle \<Rightarrow> ('e, 'a::zero) outcome" where
  "kll_double_sketch_get_max_value get_max_item H sketch =
     (if sketch \<noteq> nullptr then member_call H sketch get_max_item else Returned 0)"

definition kll_double_sketch_get_quantile ::
    "('s \<Rightarrow> double \<Rightarrow> 'e + 'a) \<Rightarrow> 's heap \<Rightarrow> handle \<Rightarrow> double \<Rightarrow> ('e, 'a::zero) outcome" where
  "kll_double_sketch_get_quantile get_quantile H sketch fraction =
     (if sketch \<noteq> nullptr
      then member_call H sketch (\<lambda>s. get_quantile s fraction)
      else Returned 0)"

definition kll_double_sketch_get_rank ::
    "('s \<Rightarrow> 'a \<Rightarrow> 'e + double) \<Rightarrow> 's heap \<Rightarrow> handle \<Rightarrow> 'a \<Rightarrow> ('e, double) outcome" where
  "kll_double_sketch_get_rank get_rank H sketch v =
     (if sketch \<noteq> nullptr
      then member_call H sketch (\<lambda>s. get_rank s v)
      else Returned (Finite 0))"

definition kll_double_sketch_serialize ::
    "('s \<Rightarrow> 'e + 8 word list) \<Rightarrow> (nat \<Rightarrow> bool) \<Rightarrow> 's heap \<Rightarrow> handle \<Rightarrow> nat option
      \<Rightarrow> ('e, 8 word list option \<times> nat option) outcome" where
  "kll_double_sketch_serialize serialize new_array H sketch size_out =
     (if sketch = nullptr \<or> size_out = None then Returned (None, size_out)
      else (case deref H sketch of
              None \<Rightarrow> Undefined
            | Some s \<Rightarrow>
                (case serialize s of
                   Inr bytes \<Rightarrow>
                     (if new_array (length bytes)
                      then Returned (Some bytes, Some (length bytes))
                      else Returned (None, Some (length bytes)))
                 | Inl e \<Rightarrow> Returned (None, size_out))))"

definition kll_double_sketch_deserialize ::
    "(8 word list \<Rightarrow> 'e + 's) \<Rightarrow> 's heap \<Rightarrow> 8 word list option \<Rightarrow> nat
      \<Rightarrow> ('e, 's heap \<times> handle) outcome" where
  "kll_double_sketch_deserialize deserialize H data sz =
     (case data of
        None \<Rightarrow> Returned (H, nullptr)
      | Some bytes \<Rightarrow>
          (if sz = 0 then Returned (H, nullptr)
           else if length bytes < sz then Undefined
           else (case deserialize (take sz bytes) of
                   Inr s \<Rightarrow> Returned (new_object H s)
                 | Inl e \<Rightarrow> Returned (H, nullptr))))"

function kll_double_sketch_get_quantiles_loop ::
    "('s \<Rightarrow> double \<Rightarrow> 'e + 'a) \<Rightarrow> 's \<Rightarrow> double list \<Rightarrow> nat \<Rightarrow> nat \<Rightarrow> 'a list
      \<Rightarrow> ('e, 'a list option) outcome" where
  "kll_double_sketch_get_quantiles_loop get_quantile s fractions num_fractions i results =
     (if i < num_fractions
      then (if length fractions \<le> i then Undefined
            else (case get_quantile s (fractions ! i) of
                    Inl e \<Rightarrow> Returned (Some results)
                  | Inr v \<Rightarrow>
                      (if length results \<le> i then Undefined
                       else kll_double_sketch_get_quantiles_loop get_quantile s fractions
                              num_fractions (i + 1) (results[i := v]))))
      else Returned (Some results))"
  by pat_completeness auto
termination
  by (relation "measure (\<lambda>(get_quantile, s, fractions, num_fractions, i, results).
        num_fractions - i)") auto

definition kll_double_sketch_get_quantiles ::
    "('s \<Rightarrow> double \<Rightarrow> 'e + 'a) \<Rightarrow> 's heap \<Rightarrow> handle \<Rightarrow> double list option \<Rightarrow> nat
      \<Rightarrow> 'a list option \<Rightarrow> ('e, 'a list option) outcome" where
  "kll_double_sketch_get_quantiles get_quantile H sketch fractions num_fractions results =
     (if sketch = nullptr \<or> fractions = None \<or> results = None \<or> num_fractions = 0
      then Returned results
      else (case deref H sketch of
              None \<Rightarrow> Undefined
            | Some s \<Rightarrow>
                kll_double_sketch_get_quantiles_loop get_quantile s (the fractions)
                  num_fractions 0 (the results)))"

function kll_double_sketch_get_quantiles_evenly_spaced_loop ::
    "('s \<Rightarrow> double \<Rightarrow> 'e + 'a) \<Rightarrow> 's \<Rightarrow> 32 word \<Rightarrow> 32 word \<Rightarrow> 'a list
      \<Rightarrow> ('e, 'a list option) outcome" where
  "kll_double_sketch_get_quantiles_evenly_spaced_loop get_quantile s num i results =
     (if i < num
      then (case get_quantile s (double_div_u32 i (num - 1)) of
              Inl e \<Rightarrow> Returned (Some results)
            | Inr v \<Rightarrow>
                (if length results \<le> unat i then Undefined
                 else kll_double_sketch_get_quantiles_evenly_spaced_loop get_quantile s num
                        (i + 1) (results[unat i := v])))
      else Returned (Some results))"
  by pat_completeness auto
termination
  apply (relation "measure (\<lambda>(get_quantile, s, num, i, results). unat num - unat i)")
   apply simp
  apply (simp add: loop_counter_decreases)
  done

definition kll_double_sketch_get_quantiles_evenly_spaced ::
    "('s \<Rightarrow> double \<Rightarrow> 'e + 'a) \<Rightarrow> 's heap \<Rightarrow> handle \<Rightarrow> 32 word \<Rightarrow> 'a list option
      \<Rightarrow> ('e, 'a list option) outcome" where
  "kll_double_sketch_get_quantiles_evenly_spaced get_quantile H sketch num results =
     (if sketch = nullptr \<or> results = None \<or> num = 0
      then Returned results
      else (case deref H sketch of
              None \<Rightarrow> Undefined
            | Some s \<Rightarrow>
                kll_double_sketch_get_quantiles_evenly_spaced_loop get_quantile s num 0
                  (the results)))"

section \<open>The sketch engine behind the wrapper\<close>

text \<open>
  The class \<open>kll_sketch<T>\<close> is included from \<open>datasketches-cpp/kll/include/kll_sketch.hpp\<close>,
  which is not among the sources. Where a statement needs to know what a member function
  does (which arguments it rejects, what it returns), the member function is modelled
  from the specification's sections 3, 4.4, 4.5 and 7. Only the member functions the
  statements below need are modelled: construction, the read-only queries and the codec.
  The others (\<open>update\<close>, \<open>merge\<close>, \<open>get_num_retained\<close>, \<open>is_estimation_mode\<close>) occur
  in the statements as parameters only.
\<close>

text \<open>Modelled from the spec: the internal error taxonomy of section 7 (the exceptions of
  the missing \<open>kll_sketch.hpp\<close>).\<close>

datatype kll_error =
  ConstructionError | EmptySketchError | RangeError | DeserializationError | AllocationFailure

text \<open>Modelled from the spec: the sketch of section 3 (the state of the missing class
  \<open>kll_sketch<T>\<close>). \<open>k\<close> and \<open>n\<close> have the widths the wrapper returns them in; a level is
  its buffer of items, its weight \<open>2^i\<close> is implicit in its position and its capacity is
  derived; the extrema are \<open>None\<close> while they are undefined.\<close>

record 'a sketch =
  sketch_k :: "16 word"
  sketch_n :: "64 word"
  levels :: "'a list list"
  min_item :: "'a option"
  max_item :: "'a option"
  is_level_zero_sorted :: bool

text \<open>Modelled from the spec: the bounds on \<open>k\<close> of section 3 ("reject k < 8 or k > a
  fixed maximum, e.g. 65535") and a library-chosen default, the \<open>k = 200\<close> of the
  scenarios of section 8.\<close>

definition MIN_K :: nat where
  "MIN_K = 8"

definition MAX_K :: nat where
  "MAX_K = 65535"

definition DEFAULT_K :: "16 word" where
  "DEFAULT_K = 200"

text \<open>Modelled from the spec: the constructor \<open>kll_sketch<T>(k)\<close>; a \<open>k\<close> outside the bounds
  fails construction, otherwise the sketch is created empty.\<close>

definition spec_new_with_k :: "16 word \<Rightarrow> kll_error + 'a sketch" where
  "spec_new_with_k k =
     (if unat k < MIN_K \<or> MAX_K < unat k then Inl ConstructionError
      else Inr \<lparr>sketch_k = k, sketch_n = 0, levels = [[]], min_item = None,
                max_item = None, is_level_zero_sorted = False\<rparr>)"

text \<open>Modelled from the spec: the default constructor \<open>kll_sketch<T>()\<close>.\<close>

definition spec_new :: "kll_error + 'a sketch" where
  "spec_new = spec_new_with_k DEFAULT_K"

text \<open>Modelled from the spec: \<open>is_empty()\<close>, "true iff n == 0".\<close>

definition spec_is_empty :: "'a sketch \<Rightarrow> bool" where
  "spec_is_empty s = (sketch_n s = 0)"

text \<open>Modelled from the spec: \<open>get_k()\<close> and \<open>get_n()\<close>.\<close>

definition spec_get_k :: "'a sketch \<Rightarrow> 16 word" where
  "spec_get_k s = sketch_k s"

definition spec_get_n :: "'a sketch \<Rightarrow> 64 word" where
  "spec_get_n s = sketch_n s"

text \<open>Modelled from the spec: \<open>get_min_item()\<close> and \<open>get_max_item()\<close>, "fail/error when
  empty" with the EmptySketchError of section 7.\<close>

definition spec_get_min_item :: "'a sketch \<Rightarrow> kll_error + 'a" where
  "spec_get_min_item s =
     (if spec_is_empty s then Inl EmptySketchError
      else (case min_item s of Some m \<Rightarrow> Inr m | None \<Rightarrow> Inl EmptySketchError))"

definition spec_get_max_item :: "'a sketch \<Rightarrow> kll_error + 'a" where
  "spec_get_max_item s =
     (if spec_is_empty s then Inl EmptySketchError
      else (case max_item s of Some m \<Rightarrow> Inr m | None \<Rightarrow> Inl EmptySketchError))"

text \<open>Modelled from the spec: the sum over all levels of weight times the count of items
  at that level that are at most \<open>v\<close>; the weight doubles from one level to the next.\<close>

fun weighted_le_count :: "'a::linorder \<Rightarrow> 'a list list \<Rightarrow> nat" where
  "weighted_le_count v [] = 0"
| "weighted_le_count v (l # ls) = length (filter (\<lambda>x. x \<le> v) l) + 2 * weighted_le_count v ls"

text \<open>Modelled from the spec: \<open>get_rank(value)\<close>, that sum divided by \<open>n\<close>, an error on an
  empty sketch.\<close>

definition spec_get_rank :: "'a::linorder sketch \<Rightarrow> 'a \<Rightarrow> kll_error + double" where
  "spec_get_rank s v =
     (if spec_is_empty s then Inl EmptySketchError
      else Inr (Finite (of_nat (weighted_le_count v (levels s)) / of_nat (unat (sketch_n s)))))"

text \<open>Modelled from the spec: the weighted view of all retained items, level by level.\<close>

fun weighted_items :: "nat \<Rightarrow> 'a list list \<Rightarrow> ('a \<times> nat) list" where
  "weighted_items w [] = []"
| "weighted_items w (l # ls) = map (\<lambda>x. (x, w)) l @ weighted_items (2 * w) ls"

text \<open>Modelled from the spec: the cumulative-weight search, the first item of the sorted
  view whose cumulative weight reaches the target.\<close>

fun cumulative_search :: "rat \<Rightarrow> nat \<Rightarrow> ('a \<times> nat) list \<Rightarrow> 'a option" where
  "cumulative_search target acc [] = None"
| "cumulative_search target acc ((x, w) # xs) =
     (if target \<le> of_nat (acc + w) then Some x else cumulative_search target (acc + w) xs)"

text \<open>Modelled from the spec: \<open>get_quantile(fraction)\<close>, "the smallest item whose weighted
  cumulative rank is at least fraction times n"; a fraction outside [0,1] (a NaN and the
  infinities are outside) fails with a range error, an empty sketch with an empty-sketch
  error.\<close>

definition spec_get_quantile :: "'a::linorder sketch \<Rightarrow> double \<Rightarrow> kll_error + 'a" where
  "spec_get_quantile s fraction =
     (case fraction of
        Finite q \<Rightarrow>
          (if q < 0 \<or> 1 < q then Inl RangeError
           else if spec_is_empty s then Inl EmptySketchError
           else (case cumulative_search (q * of_nat (unat (sketch_n s))) 0
                        (sort_key fst (weighted_items 1 (levels s))) of
                   Some x \<Rightarrow> Inr x
                 | None \<Rightarrow> Inl EmptySketchError))
      | _ \<Rightarrow> Inl RangeError)"

subsection \<open>The serialization codec\<close>

text \<open>Modelled from the spec: the invariants of section 3 that a byte sequence can
  violate (the state of a well-formed \<open>kll_sketch<T>\<close>): \<open>k\<close> within its bounds, at least
  one level, \<open>n\<close> the weighted number of retained items, the extrema defined exactly when
  the sketch is not empty; and the sizes that the fields of the binary layout can hold (a
  one-byte number of levels, four-byte item counts).\<close>

fun weighted_count :: "nat list \<Rightarrow> nat" where
  "weighted_count [] = 0"
| "weighted_count (c # cs) = c + 2 * weighted_count cs"

definition valid_sketch :: "'a sketch \<Rightarrow> bool" where
  "valid_sketch s =
     (MIN_K \<le> unat (sketch_k s) \<and> unat (sketch_k s) \<le> MAX_K
      \<and> levels s \<noteq> [] \<and> length (levels s) < 256
      \<and> list_all (\<lambda>l. length l < 2 ^ 32) (levels s)
      \<and> unat (sketch_n s) = weighted_count (map length (levels s))
      \<and> (min_item s = None) = (sketch_n s = 0)
      \<and> (max_item s = None) = (sketch_n s = 0))"

text \<open>Modelled from the spec: the byte encoding of an item (the IEEE-754 bytes of a
  \<open>float\<close> or \<open>double\<close> in the missing library), a capability of the item type: a fixed
  width, an encoder and its decoder.\<close>

record 'a item_codec =
  item_width :: nat
  encode_item :: "'a \<Rightarrow> 8 word list"
  decode_item :: "8 word list \<Rightarrow> 'a"

definition codec_ok :: "'a item_codec \<Rightarrow> bool" where
  "codec_ok c =
     (0 < item_width c
      \<and> (\<forall>x. length (encode_item c x) = item_width c \<and> decode_item c (encode_item c x) = x))"

text \<open>Modelled from the spec: unsigned integers of the layout, little-endian in a fixed
  number of bytes.\<close>

fun le_bytes :: "nat \<Rightarrow> nat \<Rightarrow> 8 word list" where
  "le_bytes 0 v = []"
| "le_bytes (Suc m) v = of_nat (v mod 256) # le_bytes m (v div 256)"

fun le_nat :: "8 word list \<Rightarrow> nat" where
  "le_nat [] = 0"
| "le_nat (b # bs) = unat b + 256 * le_nat bs"

text \<open>Modelled from the spec: the format-version tag and the compact flags byte (bit 0
  empty, bit 1 single item, bit 2 level zero sorted).\<close>

definition format_version :: "8 word" where
  "format_version = 1"

definition flags_byte :: "bool \<Rightarrow> bool \<Rightarrow> bool \<Rightarrow> 8 word" where
  "flags_byte empty_bit single_bit sorted_bit =
     of_bool empty_bit + 2 * of_bool single_bit + 4 * of_bool sorted_bit"

text \<open>Modelled from the spec: \<open>serialize()\<close>, "a format-version tag, k, n, a compact flags
  byte, min and max items, the per-level item counts, and the concatenated item payloads
  in level order". The extrema are written when they are defined; the number of levels
  precedes the counts, which makes the sequence self-describing.\<close>

definition spec_serialize :: "'a item_codec \<Rightarrow> 'a sketch \<Rightarrow> 8 word list" where
  "spec_serialize c s =
     [format_version]
     @ le_bytes 2 (unat (sketch_k s))
     @ le_bytes 8 (unat (sketch_n s))
     @ [flags_byte (sketch_n s = 0) (sketch_n s = 1) (is_level_zero_sorted s)]
     @ (case min_item s of None \<Rightarrow> [] | Some m \<Rightarrow> encode_item c m)
     @ (case max_item s of None \<Rightarrow> [] | Some m \<Rightarrow> encode_item c m)
     @ [of_nat (length (levels s))]
     @ concat (map (\<lambda>l. le_bytes 4 (length l)) (levels s))
     @ concat (map (encode_item c) (concat (levels s)))"

text \<open>Modelled from the spec: reading a field of the layout; a buffer that ends before
  the field does is truncated.\<close>

definition read_bytes :: "nat \<Rightarrow> 8 word list \<Rightarrow> (8 word list \<times> 8 word list) option" where
  "read_bytes m bs = (if length bs < m then None else Some (take m bs, drop m bs))"

definition read_byte :: "8 word list \<Rightarrow> (8 word \<times> 8 word list) option" where
  "read_byte bs = (case bs of [] \<Rightarrow> None | b # rest \<Rightarrow> Some (b, rest))"

text \<open>Modelled from the spec: cutting a sequence into consecutive pieces of the given
  sizes (the counts into four-byte fields, the payload into items, the items into
  levels).\<close>

fun split_by :: "nat list \<Rightarrow> 'b list \<Rightarrow> 'b list list" where
  "split_by [] xs = []"
| "split_by (c # cs) xs = take c xs # split_by cs (drop c xs)"

text \<open>Modelled from the spec: the fields in front of the item payload, as the decoder
  reads them.\<close>

record header =
  hdr_version :: "8 word"
  hdr_k :: "16 word"
  hdr_n :: "64 word"
  hdr_flags :: "8 word"
  hdr_extrema :: "8 word list"
  hdr_counts :: "nat list"

definition parse_header :: "nat \<Rightarrow> 8 word list \<Rightarrow> (header \<times> 8 word list) option" where
  "parse_header w bs =
     do {
       (ver, r1) \<leftarrow> read_byte bs;
       (kb, r2) \<leftarrow> read_bytes 2 r1;
       (nb, r3) \<leftarrow> read_bytes 8 r2;
       (fl, r4) \<leftarrow> read_byte r3;
       (ex, r5) \<leftarrow> read_bytes (if bit fl 0 then 0 else 2 * w) r4;
       (nl, r6) \<leftarrow> read_byte r5;
       (cs, payload) \<leftarrow> read_bytes (4 * unat nl) r6;
       Some (\<lparr>hdr_version = ver, hdr_k = of_nat (le_nat kb), hdr_n = of_nat (le_nat nb),
               hdr_flags = fl, hdr_extrema = ex,
               hdr_counts = map le_nat (split_by (replicate (unat nl) 4) cs)\<rparr>, payload)
     }"

text \<open>Modelled from the spec: the two parts of what \<open>serialize()\<close> writes, the fields in
  front of the payload (as the values a decoder reads back) and the item payload.\<close>

definition header_of :: "'a item_codec \<Rightarrow> 'a sketch \<Rightarrow> header" where
  "header_of c s =
     \<lparr>hdr_version = format_version, hdr_k = sketch_k s, hdr_n = sketch_n s,
      hdr_flags = flags_byte (sketch_n s = 0) (sketch_n s = 1) (is_level_zero_sorted s),
      hdr_extrema = (case min_item s of None \<Rightarrow> [] | Some m \<Rightarrow> encode_item c m)
                    @ (case max_item s of None \<Rightarrow> [] | Some m \<Rightarrow> encode_item c m),
      hdr_counts = map length (levels s)\<rparr>"

definition payload_of :: "'a item_codec \<Rightarrow> 'a sketch \<Rightarrow> 8 word list" where
  "payload_of c s = concat (map (encode_item c) (concat (levels s)))"

text \<open>Modelled from the spec: \<open>deserialize(bytes)\<close>, the inverse of \<open>serialize()\<close>, failing
  with a malformed-input error on a truncated buffer, an unsupported format-version tag
  and internally inconsistent counts (declared level sizes not matching the payload
  length), and on a header that violates the invariants of the sketch.\<close>

definition spec_deserialize :: "'a item_codec \<Rightarrow> 8 word list \<Rightarrow> kll_error + 'a sketch" where
  "spec_deserialize c bs =
     (case parse_header (item_width c) bs of
        None \<Rightarrow> Inl DeserializationError
      | Some (h, payload) \<Rightarrow>
          (if hdr_version h \<noteq> format_version then Inl DeserializationError
           else if unat (hdr_k h) < MIN_K \<or> MAX_K < unat (hdr_k h)
             then Inl DeserializationError
           else if hdr_flags h \<noteq> flags_byte (hdr_n h = 0) (hdr_n h = 1) (bit (hdr_flags h) 2)
             then Inl DeserializationError
           else if hdr_counts h = [] then Inl DeserializationError
           else if length payload \<noteq> item_width c * sum_list (hdr_counts h)
             then Inl DeserializationError
           else if unat (hdr_n h) \<noteq> weighted_count (hdr_counts h)
             then Inl DeserializationError
           else Inr \<lparr>sketch_k = hdr_k h, sketch_n = hdr_n h,
                     levels = split_by (hdr_counts h)
                       (map (decode_item c)
                          (split_by (replicate (sum_list (hdr_counts h)) (item_width c))
                             payload)),
                     min_item = (if hdr_n h = 0 then None
                                 else Some (decode_item c (take (item_width c) (hdr_extrema h)))),
                     max_item = (if hdr_n h = 0 then None
                                 else Some (decode_item c (drop (item_width c) (hdr_extrema h)))),
                     is_level_zero_sorted = bit (hdr_flags h) 2\<rparr>))"

text \<open>Modelled from the spec: the byte encoding of a binary32 item, its four bytes in
  little-endian order (items are carried as their bit patterns).\<close>

definition float_codec :: "32 word item_codec" where
  "float_codec =
     \<lparr>item_width = 4, encode_item = (\<lambda>x. le_bytes 4 (unat x)),
      decode_item = (\<lambda>bs. of_nat (le_nat bs))\<rparr>"

text \<open>A member function of the engine that cannot fail, as a parameter of a wrapper
  function.\<close>

definition never_throws :: "('s \<Rightarrow> 'r) \<Rightarrow> 's \<Rightarrow> kll_error + 'r" where
  "never_throws f s = Inr (f s)"

subsection \<open>Example sketches\<close>

text \<open>
  Concrete sketches for evaluating the statements. Their items are binary32 bit patterns
  of non-negative floats (3.0, 1.0, 4.0 at level 0 and 2.0 at level 1), on which the order
  of the patterns is the order of the floats, and \<open>0\<close> is the pattern of \<open>0.0f\<close>.
  The empty sketch is the one \<open>kll_sketch<float>(200)\<close> constructs.
\<close>

definition example_sketch :: "32 word sketch" where
  "example_sketch =
     \<lparr>sketch_k = 200, sketch_n = 5,
      levels = [[0x40400000, 0x3F800000, 0x40800000], [0x40000000]],
      min_item = Some 0x3F800000, max_item = Some 0x40800000,
      is_level_zero_sorted = False\<rparr>"

definition empty_sketch :: "32 word sketch" where
  "empty_sketch =
     \<lparr>sketch_k = 200, sketch_n = 0, levels = [[]], min_item = None, max_item = None,
      is_level_zero_sorted = False\<rparr>"

section \<open>Null handles\<close>

text \<open>
  Claim C1. Every exported function that accepts a sketch handle returns a defined default
  when the handle is null, whatever the library's member functions would do and whatever
  the other arguments are: \<open>update\<close>, \<open>merge\<close> and \<open>delete\<close> leave the heap as it is,
  \<open>is_empty\<close> returns true, \<open>get_k\<close>, \<open>get_n\<close>, \<open>get_num_retained\<close>, \<open>get_min_value\<close>,
  \<open>get_max_value\<close>, \<open>get_quantile\<close> and \<open>get_rank\<close> return 0, \<open>is_estimation_mode\<close> returns
  false, \<open>serialize\<close> returns a null pointer and leaves \<open>*size\<close> alone, and the two batch
  queries return with the results array untouched. This holds for the float and for the
  double functions.
\<close>

theorem null_handle_defaults:
  "kll_float_sketch_update update H nullptr v = Returned H
   \<and> kll_float_sketch_merge merge H nullptr other = Returned H
   \<and> kll_float_sketch_merge merge H sketch nullptr = Returned H
   \<and> kll_float_sketch_delete H nullptr = Returned H
   \<and> kll_float_sketch_is_empty is_empty H nullptr = Returned True
   \<and> kll_float_sketch_get_k get_k H nullptr = Returned 0
   \<and> kll_float_sketch_get_n get_n H nullptr = Returned 0
   \<and> kll_float_sketch_get_num_retained get_num_retained H nullptr = Returned 0
   \<and> kll_float_sketch_is_estimation_mode is_estimation_mode H nullptr = Returned False
   \<and> kll_float_sketch_get_min_value get_min_item H nullptr = Returned 0
   \<and> kll_float_sketch_get_max_value get_max_item H nullptr = Returned 0
   \<and> kll_float_sketch_get_quantile get_quantile H nullptr fraction = Returned 0
   \<and> kll_float_sketch_get_rank get_rank H nullptr v = Returned (Finite 0)
   \<and> kll_float_sketch_serialize serialize new_array H nullptr size_out
        = Returned (None, size_out)
   \<and> kll_float_sketch_get_quantiles get_quantile H nullptr fractions num_fractions results
        = Returned results
   \<and> kll_float_sketch_get_quantiles_evenly_spaced get_quantile H nullptr num results
        = Returned results
   \<and> kll_double_sketch_update update H nullptr v = Returned H
   \<and> kll_double_sketch_merge merge H nullptr other = Returned H
   \<and> kll_double_sketch_merge merge H sketch nullptr = Returned H
   \<and> kll_double_sketch_delete H nullptr = Returned H
   \<and> kll_double_sketch_is_empty is_empty H nullptr = Returned True
   \<and> kll_double_sketch_get_k get_k H nullptr = Returned 0
   \<and> kll_double_sketch_get_n get_n H nullptr = Returned 0
   \<and> kll_double_sketch_get_num_retained get_num_retained H nullptr = Returned 0
   \<and> kll_double_sketch_is_estimation_mode is_estimation_mode H nullptr = Returned False
   \<and> kll_double_sketch_get_min_value get_min_item H nullptr = Returned 0
   \<and> kll_double_sketch_get_max_value get_max_item H nullptr = Returned 0
   \<and> kll_double_sketch_get_quantile get_quantile H nullptr fraction = Returned 0
   \<and> kll_double_sketch_get_rank get_rank H nullptr v = Returned (Finite 0)
   \<and> kll_double_sketch_serialize serialize new_array H nullptr size_out
        = Returned (None, size_out)
   \<and> kll_double_sketch_get_quantiles get_quantile H nullptr fractions num_fractions results
        = Returned results
   \<and> kll_double_sketch_get_quantiles_evenly_spaced get_quantile H nullptr num results
        = Returned results"
  by (simp add: kll_float_sketch_update_def kll_float_sketch_merge_def kll_float_sketch_delete_def kll_float_sketch_is_empty_def kll_float_sketch_get_k_def kll_float_sketch_get_n_def kll_float_sketch_get_num_retained_def kll_float_sketch_is_estimation_mode_def kll_float_sketch_get_min_value_def kll_float_sketch_get_max_value_def kll_float_sketch_get_quantile_def kll_float_sketch_get_rank_def kll_float_sketch_serialize_def kll_float_sketch_get_quantiles_def kll_float_sketch_get_quantiles_evenly_spaced_def kll_double_sketch_update_def kll_double_sketch_merge_def kll_double_sketch_delete_def kll_double_sketch_is_empty_def kll_double_sketch_get_k_def kll_double_sketch_get_n_def kll_double_sketch_get_num_retained_def kll_double_sketch_is_estimation_mode_def kll_double_sketch_get_min_value_def kll_double_sketch_get_max_value_def kll_double_sketch_get_quantile_def kll_double_sketch_get_rank_def kll_double_sketch_serialize_def kll_double_sketch_get_quantiles_def kll_double_sketch_get_quantiles_evenly_spaced_def)

section \<open>The batch queries\<close>

text \<open>
  The recursive equations of the loops are applied one step at a time.
\<close>

declare kll_float_sketch_get_quantiles_loop.simps [simp del]
declare kll_double_sketch_get_quantiles_loop.simps [simp del]
declare kll_float_sketch_get_quantiles_evenly_spaced_loop.simps [simp del]
declare kll_double_sketch_get_quantiles_evenly_spaced_loop.simps [simp del]

lemma double_quantiles_loop_eq:
  "kll_double_sketch_get_quantiles_loop gq s fr num i res =
   kll_float_sketch_get_quantiles_loop gq s fr num i res"
proof (induction gq s fr num i res rule: kll_float_sketch_get_quantiles_loop.induct)
  case (1 gq s fr num i res)
  show ?case
    using 1
    by (subst kll_double_sketch_get_quantiles_loop.simps,
        subst kll_float_sketch_get_quantiles_loop.simps)
       (auto split: sum.splits)
qed

lemma double_evenly_loop_eq:
  "kll_double_sketch_get_quantiles_evenly_spaced_loop gq s num i res =
   kll_float_sketch_get_quantiles_evenly_spaced_loop gq s num i res"
proof (induction gq s num i res rule: kll_float_sketch_get_quantiles_evenly_spaced_loop.induct)
  case (1 gq s num i res)
  show ?case
    by (subst kll_double_sketch_get_quantiles_evenly_spaced_loop.simps,
        subst kll_float_sketch_get_quantiles_evenly_spaced_loop.simps)
       (auto split: sum.splits simp: "1.IH")
qed

lemma fill_step:
  assumes "i < j" "j \<le> length res"
  shows "take (Suc i) (res[i := vs i]) @ map vs [Suc i..<j] @ drop j (res[i := vs i])
         = take i res @ map vs [i..<j] @ drop j res"
proof -
  have "take (Suc i) (res[i := vs i]) = take i res @ [vs i]"
    using assms by (simp add: take_Suc_conv_app_nth)
  moreover have "drop j (res[i := vs i]) = drop j res"
    using assms by simp
  moreover have "[i..<j] = i # [Suc i..<j]"
    using assms by (simp add: upt_conv_Cons)
  ultimately show ?thesis by simp
qed

lemma float_quantiles_loop_steps:
  assumes "i \<le> j" "j \<le> num" "j \<le> length fr" "j \<le> length res"
    and "\<forall>m. i \<le> m \<and> m < j \<longrightarrow> gq s (fr ! m) = Inr (vs m)"
  shows "kll_float_sketch_get_quantiles_loop gq s fr num i res =
         kll_float_sketch_get_quantiles_loop gq s fr num j
           (take i res @ map vs [i..<j] @ drop j res)"
  using assms
proof (induction "j - i" arbitrary: i res)
  case 0
  then show ?case by simp
next
  case (Suc d)
  then have lt: "i < j" by simp
  have ok: "gq s (fr ! i) = Inr (vs i)" using Suc.prems lt by simp
  have "kll_float_sketch_get_quantiles_loop gq s fr num i res =
        kll_float_sketch_get_quantiles_loop gq s fr num (Suc i) (res[i := vs i])"
    using Suc.prems lt ok by (subst kll_float_sketch_get_quantiles_loop.simps) simp
  also have "\<dots> = kll_float_sketch_get_quantiles_loop gq s fr num j
      (take (Suc i) (res[i := vs i]) @ map vs [Suc i..<j] @ drop j (res[i := vs i]))"
    using Suc.hyps(2) Suc.prems lt by (intro Suc.hyps(1)) auto
  also have "take (Suc i) (res[i := vs i]) @ map vs [Suc i..<j] @ drop j (res[i := vs i])
      = take i res @ map vs [i..<j] @ drop j res"
    using lt Suc.prems(4) by (rule fill_step)
  finally show ?case .
qed

lemma of_nat_below_word:
  fixes num :: "'w::len word"
  assumes "m < unat num"
  shows "(of_nat m :: 'w word) < num" and "unat (of_nat m :: 'w word) = m"
proof -
  have "m < 2 ^ LENGTH('w)"
    using assms unsigned_less [of num, where 'a = nat] by (metis order_less_trans)
  then show u: "unat (of_nat m :: 'w word) = m"
    by (simp add: unat_of_nat)
  show "(of_nat m :: 'w word) < num"
    using assms u by (simp add: word_less_nat_alt)
qed

lemma float_evenly_loop_steps:
  assumes "i \<le> j" "j \<le> unat num" "j \<le> length res"
    and "\<forall>m. i \<le> m \<and> m < j \<longrightarrow> gq s (double_div_u32 (of_nat m) (num - 1)) = Inr (vs m)"
  shows "kll_float_sketch_get_quantiles_evenly_spaced_loop gq s num (of_nat i) res =
         kll_float_sketch_get_quantiles_evenly_spaced_loop gq s num (of_nat j)
           (take i res @ map vs [i..<j] @ drop j res)"
  using assms
proof (induction "j - i" arbitrary: i res)
  case 0
  then show ?case by simp
next
  case (Suc d)
  then have lt: "i < j" by simp
  then have below: "i < unat num" using Suc.prems by simp
  have ok: "gq s (double_div_u32 (of_nat i) (num - 1)) = Inr (vs i)"
    using Suc.prems lt by simp
  have "kll_float_sketch_get_quantiles_evenly_spaced_loop gq s num (of_nat i) res =
        kll_float_sketch_get_quantiles_evenly_spaced_loop gq s num (of_nat (Suc i))
          (res[i := vs i])"
    using Suc.prems lt ok of_nat_below_word [OF below]
    by (subst kll_float_sketch_get_quantiles_evenly_spaced_loop.simps) (simp add: add.commute)
  also have "\<dots> = kll_float_sketch_get_quantiles_evenly_spaced_loop gq s num (of_nat j)
      (take (Suc i) (res[i := vs i]) @ map vs [Suc i..<j] @ drop j (res[i := vs i]))"
    using Suc.hyps(2) Suc.prems lt by (intro Suc.hyps(1)) auto
  also have "take (Suc i) (res[i := vs i]) @ map vs [Suc i..<j] @ drop j (res[i := vs i])
      = take i res @ map vs [i..<j] @ drop j res"
    using lt Suc.prems(3) by (rule fill_step)
  finally show ?case .
qed


lemma float_quantiles_loop_fails_at:
  assumes "j < num" "j < length fr" "j \<le> length res"
    and "\<forall>m<j. gq s (fr ! m) = Inr (vs m)"
    and "gq s (fr ! j) = Inl e"
  shows "kll_float_sketch_get_quantiles_loop gq s fr num 0 res =
         Returned (Some (map vs [0..<j] @ drop j res))"
proof -
  have "kll_float_sketch_get_quantiles_loop gq s fr num 0 res =
        kll_float_sketch_get_quantiles_loop gq s fr num j
          (take 0 res @ map vs [0..<j] @ drop j res)"
    using assms by (intro float_quantiles_loop_steps) auto
  also have "\<dots> = Returned (Some (map vs [0..<j] @ drop j res))"
    using assms by (subst kll_float_sketch_get_quantiles_loop.simps) simp
  finally show ?thesis .
qed


lemma float_evenly_loop_fails_at:
  assumes "j < unat num" "j \<le> length res"
    and "\<forall>m<j. gq s (double_div_u32 (of_nat m) (num - 1)) = Inr (vs m)"
    and "gq s (double_div_u32 (of_nat j) (num - 1)) = Inl e"
  shows "kll_float_sketch_get_quantiles_evenly_spaced_loop gq s num 0 res =
         Returned (Some (map vs [0..<j] @ drop j res))"
proof -
  have "kll_float_sketch_get_quantiles_evenly_spaced_loop gq s num (of_nat 0) res =
        kll_float_sketch_get_quantiles_evenly_spaced_loop gq s num (of_nat j)
          (take 0 res @ map vs [0..<j] @ drop j res)"
    using assms by (intro float_evenly_loop_steps) auto
  also have "\<dots> = Returned (Some (map vs [0..<j] @ drop j res))"
    using assms of_nat_below_word [OF assms(1)]
    by (subst kll_float_sketch_get_quantiles_evenly_spaced_loop.simps) simp
  finally show ?thesis by simp
qed

lemma float_evenly_loop_completes:
  assumes "unat num \<le> length res"
    and "\<forall>m<unat num. gq s (double_div_u32 (of_nat m) (num - 1)) = Inr (vs m)"
  shows "kll_float_sketch_get_quantiles_evenly_spaced_loop gq s num 0 res =
         Returned (Some (map vs [0..<unat num] @ drop (unat num) res))"
proof -
  have "kll_float_sketch_get_quantiles_evenly_spaced_loop gq s num (of_nat 0) res =
        kll_float_sketch_get_quantiles_evenly_spaced_loop gq s num (of_nat (unat num))
          (take 0 res @ map vs [0..<unat num] @ drop (unat num) res)"
    using assms by (intro float_evenly_loop_steps) auto
  also have "\<dots> = Returned (Some (map vs [0..<unat num] @ drop (unat num) res))"
    by (subst kll_float_sketch_get_quantiles_evenly_spaced_loop.simps) simp
  finally show ?thesis by simp
qed

lemma float_get_quantile_live:
  assumes "sketch \<noteq> nullptr" "deref H sketch = Some s"
  shows "kll_float_sketch_get_quantile gq H sketch f =
         (case gq s f of Inl e \<Rightarrow> Escaped e | Inr v \<Rightarrow> Returned v)"
  using assms by (simp add: kll_float_sketch_get_quantile_def member_call_def)

lemma float_get_quantiles_live:
  assumes "sketch \<noteq> nullptr" "deref H sketch = Some s" "0 < num"
  shows "kll_float_sketch_get_quantiles gq H sketch (Some fr) num (Some res) =
         kll_float_sketch_get_quantiles_loop gq s fr num 0 res"
  using assms by (simp add: kll_float_sketch_get_quantiles_def)

lemma float_evenly_live:
  assumes "sketch \<noteq> nullptr" "deref H sketch = Some s" "num \<noteq> 0"
  shows "kll_float_sketch_get_quantiles_evenly_spaced gq H sketch num (Some res) =
         kll_float_sketch_get_quantiles_evenly_spaced_loop gq s num 0 res"
  using assms by (simp add: kll_float_sketch_get_quantiles_evenly_spaced_def)

lemma double_get_quantiles_eq:
  "kll_double_sketch_get_quantiles = kll_float_sketch_get_quantiles"
  by (intro ext)
     (simp add: kll_double_sketch_get_quantiles_def kll_float_sketch_get_quantiles_def
        double_quantiles_loop_eq split: option.splits)

lemma double_evenly_eq:
  "kll_double_sketch_get_quantiles_evenly_spaced = kll_float_sketch_get_quantiles_evenly_spaced"
  by (intro ext)
     (simp add: kll_double_sketch_get_quantiles_evenly_spaced_def
        kll_float_sketch_get_quantiles_evenly_spaced_def double_evenly_loop_eq
        split: option.splits)

lemma double_get_quantile_eq:
  "kll_double_sketch_get_quantile = kll_float_sketch_get_quantile"
  by (intro ext) (simp add: kll_double_sketch_get_quantile_def kll_float_sketch_get_quantile_def)

text \<open>
  Claim C10. With a live sketch behind the handle and arrays that pass the null checks,
  when the quantile query of index \<open>j\<close> is the first to fail, \<open>get_quantiles\<close> and
  \<open>get_quantiles_evenly_spaced\<close> swallow the exception and return normally: the entries
  before \<open>j\<close> hold the computed values, the entries from \<open>j\<close> on are the caller's
  (\<open>drop j results\<close>). The functions are \<open>void\<close>: the returned outcome carries the
  array only, so nothing tells the caller of the failure. The same holds for the double
  functions.
\<close>

theorem batch_queries_swallow_failures:
  assumes "sketch \<noteq> nullptr" and "deref H sketch = Some s"
  shows
    "(j < num_fractions \<and> j < length fractions \<and> j \<le> length results
        \<and> (\<forall>i<j. gq s (fractions ! i) = Inr (vs i)) \<and> gq s (fractions ! j) = Inl e
      \<longrightarrow> kll_float_sketch_get_quantiles gq H sketch (Some fractions) num_fractions
            (Some results) = Returned (Some (map vs [0..<j] @ drop j results))
        \<and> kll_double_sketch_get_quantiles gq H sketch (Some fractions) num_fractions
            (Some results) = Returned (Some (map vs [0..<j] @ drop j results)))
     \<and> (j' < unat num \<and> j' \<le> length results'
        \<and> (\<forall>i<j'. gq s (double_div_u32 (of_nat i) (num - 1)) = Inr (vs' i))
        \<and> gq s (double_div_u32 (of_nat j') (num - 1)) = Inl e'
      \<longrightarrow> kll_float_sketch_get_quantiles_evenly_spaced gq H sketch num (Some results')
            = Returned (Some (map vs' [0..<j'] @ drop j' results'))
        \<and> kll_double_sketch_get_quantiles_evenly_spaced gq H sketch num (Some results')
            = Returned (Some (map vs' [0..<j'] @ drop j' results')))"
proof (intro conjI impI)
  assume a: "j < num_fractions \<and> j < length fractions \<and> j \<le> length results
        \<and> (\<forall>i<j. gq s (fractions ! i) = Inr (vs i)) \<and> gq s (fractions ! j) = Inl e"
  then have pos: "0 < num_fractions" by simp
  show f: "kll_float_sketch_get_quantiles gq H sketch (Some fractions) num_fractions
            (Some results) = Returned (Some (map vs [0..<j] @ drop j results))"
    using a by (simp add: float_get_quantiles_live [OF assms pos]
        float_quantiles_loop_fails_at [where e = e])
  then show "kll_double_sketch_get_quantiles gq H sketch (Some fractions) num_fractions
            (Some results) = Returned (Some (map vs [0..<j] @ drop j results))"
    by (simp add: double_get_quantiles_eq)
next
  assume a: "j' < unat num \<and> j' \<le> length results'
        \<and> (\<forall>i<j'. gq s (double_div_u32 (of_nat i) (num - 1)) = Inr (vs' i))
        \<and> gq s (double_div_u32 (of_nat j') (num - 1)) = Inl e'"
  then have nz: "num \<noteq> 0" by auto
  show f: "kll_float_sketch_get_quantiles_evenly_spaced gq H sketch num (Some results')
            = Returned (Some (map vs' [0..<j'] @ drop j' results'))"
    using a by (simp add: float_evenly_live [OF assms nz]
        float_evenly_loop_fails_at [where e = e'])
  then show "kll_double_sketch_get_quantiles_evenly_spaced gq H sketch num (Some results')
            = Returned (Some (map vs' [0..<j'] @ drop j' results'))"
    by (simp add: double_evenly_eq)
qed

theorem batch_queries_swallow_failures_witness:
  "kll_float_sketch_get_quantiles spec_get_quantile [Some example_sketch] 1
     (Some [Finite 0, Finite (3 / 2), Finite 1]) 3 (Some [7, 8, 9])
     = Returned (Some [0x3F800000, 8, 9])
   \<and> kll_double_sketch_get_quantiles spec_get_quantile [Some example_sketch] 1
     (Some [Finite 0, Finite (3 / 2), Finite 1]) 3 (Some [7, 8, 9])
     = Returned (Some [0x3F800000, 8, 9])
   \<and> kll_float_sketch_get_quantiles_evenly_spaced spec_get_quantile [Some example_sketch] 1
     1 (Some [7, 8, 9]) = Returned (Some [7, 8, 9])
   \<and> kll_double_sketch_get_quantiles_evenly_spaced spec_get_quantile [Some example_sketch] 1
     1 (Some [7, 8, 9]) = Returned (Some [7, 8, 9])"
proof -
  have live: "(1::handle) \<noteq> nullptr" "deref [Some example_sketch] 1 = Some example_sketch"
    by (simp_all add: nullptr_def deref_def)
  have q0: "spec_get_quantile example_sketch (Finite 0) = Inr 0x3F800000"
    and q1: "spec_get_quantile example_sketch (Finite (3 / 2)) = Inl RangeError"
    and q2: "spec_get_quantile example_sketch NaN = Inl RangeError"
    by (simp_all add: spec_get_quantile_def example_sketch_def spec_is_empty_def)
  have d: "double_div_u32 0 (1 - 1) = NaN"
    by (simp add: double_div_u32_def)
  show ?thesis
    using batch_queries_swallow_failures [OF live, where j = 1 and num_fractions = 3
        and fractions = "[Finite 0, Finite (3 / 2), Finite 1]" and results = "[7, 8, 9]"
        and gq = spec_get_quantile and vs = "\<lambda>i. 0x3F800000" and e = RangeError
        and j' = 0 and num = 1 and results' = "[7, 8, 9]" and vs' = "\<lambda>i. 0"
        and e' = RangeError] q0 q1 q2 d
    by simp
qed











lemma valid_example_sketch: "valid_sketch example_sketch"
  by (simp add: valid_sketch_def example_sketch_def MIN_K_def MAX_K_def)


text \<open>
  The evenly spaced variant agrees with the single calls in the same way, at the fractions
  \<open>static_cast<double>(i) / (num - 1)\<close>, for every \<open>num\<close> that passes the guard
  \<open>num == 0\<close>.
\<close>

lemma float_evenly_loop_result:
  assumes "unat num \<le> length res"
  shows "\<exists>j\<le>unat num. (\<forall>m<j. \<exists>v. gq s (double_div_u32 (of_nat m) (num - 1)) = Inr v)
           \<and> (j < unat num \<longrightarrow> (\<exists>e. gq s (double_div_u32 (of_nat j) (num - 1)) = Inl e))
           \<and> kll_float_sketch_get_quantiles_evenly_spaced_loop gq s num 0 res =
               Returned (Some (map (\<lambda>m. projr (gq s (double_div_u32 (of_nat m) (num - 1))))
                                 [0..<j] @ drop j res))"
proof (cases "\<exists>m<unat num. isl (gq s (double_div_u32 (of_nat m) (num - 1)))")
  case False
  let ?vs = "\<lambda>m. projr (gq s (double_div_u32 (of_nat m) (num - 1)))"
  from False have ok: "\<forall>m<unat num. gq s (double_div_u32 (of_nat m) (num - 1)) = Inr (?vs m)"
    by simp
  have run: "kll_float_sketch_get_quantiles_evenly_spaced_loop gq s num 0 res =
        Returned (Some (map ?vs [0..<unat num] @ drop (unat num) res))"
    using assms ok by (rule float_evenly_loop_completes)
  have "\<forall>m<unat num. \<exists>v. gq s (double_div_u32 (of_nat m) (num - 1)) = Inr v"
    using ok by blast
  with run show ?thesis
    by (intro exI [of _ "unat num"]) simp
next
  case True
  let ?f = "\<lambda>m. gq s (double_div_u32 (of_nat m) (num - 1))"
  define j where "j = (LEAST m. m < unat num \<and> isl (?f m))"
  have j: "j < unat num \<and> isl (?f j)"
    unfolding j_def using True by (rule LeastI_ex)
  have before: "?f m = Inr (projr (?f m))" if "m < j" for m
  proof -
    have "\<not> (m < unat num \<and> isl (?f m))"
      using that unfolding j_def by (rule not_less_Least)
    moreover have "m < unat num" using that j by simp
    ultimately show ?thesis by simp
  qed
  have at: "?f j = Inl (projl (?f j))"
    using j by simp
  have run: "kll_float_sketch_get_quantiles_evenly_spaced_loop gq s num 0 res =
        Returned (Some (map (\<lambda>m. projr (?f m)) [0..<j] @ drop j res))"
  proof (rule float_evenly_loop_fails_at [where e = "projl (?f j)"])
    show "j < unat num" using j by simp
    show "j \<le> length res" using j assms by simp
    show "\<forall>m<j. ?f m = Inr (projr (?f m))" using before by simp
    show "?f j = Inl (projl (?f j))" by (rule at)
  qed
  have b': "\<forall>m<j. \<exists>v. ?f m = Inr v"
    using before by blast
  have a': "\<exists>e. ?f j = Inl e"
    using at by blast
  show ?thesis
    using j b' a' run by (intro exI [of _ j]) simp
qed

lemma get_quantiles_evenly_spaced_matches_single_calls:
  assumes "sketch \<noteq> nullptr" and "deref H sketch = Some s"
    and "num \<noteq> 0" and "unat num \<le> length results"
  shows "\<exists>r. kll_float_sketch_get_quantiles_evenly_spaced gq H sketch num (Some results)
               = Returned (Some r)
           \<and> kll_double_sketch_get_quantiles_evenly_spaced gq H sketch num (Some results)
               = Returned (Some r)
           \<and> length r = length results
           \<and> (\<forall>i<unat num.
                 (\<forall>j\<le>i. \<exists>v. kll_float_sketch_get_quantile gq H sketch
                                (double_div_u32 (of_nat j) (num - 1)) = Returned v)
                 \<longrightarrow> kll_float_sketch_get_quantile gq H sketch
                         (double_div_u32 (of_nat i) (num - 1)) = Returned (r ! i)
                     \<and> kll_double_sketch_get_quantile gq H sketch
                         (double_div_u32 (of_nat i) (num - 1)) = Returned (r ! i))
           \<and> (\<forall>i. unat num \<le> i \<and> i < length results \<longrightarrow> r ! i = results ! i)"
proof -
  let ?fr = "\<lambda>m. double_div_u32 (of_nat m) (num - 1)"
  let ?vs = "\<lambda>m. projr (gq s (?fr m))"
  obtain j where j: "j \<le> unat num"
    and before: "\<forall>m<j. \<exists>v. gq s (?fr m) = Inr v"
    and at: "j < unat num \<longrightarrow> (\<exists>e. gq s (?fr j) = Inl e)"
    and run: "kll_float_sketch_get_quantiles_evenly_spaced_loop gq s num 0 results =
              Returned (Some (map ?vs [0..<j] @ drop j results))"
    using float_evenly_loop_result [OF assms(4), of gq s] by blast
  define r where "r = map ?vs [0..<j] @ drop j results"
  have single: "kll_float_sketch_get_quantile gq H sketch f =
        (case gq s f of Inl e \<Rightarrow> Escaped e | Inr v \<Rightarrow> Returned v)" for f
    using assms(1,2) by (rule float_get_quantile_live)
  have c1: "kll_float_sketch_get_quantiles_evenly_spaced gq H sketch num (Some results)
               = Returned (Some r)"
    using run by (simp add: float_evenly_live [OF assms(1,2,3)] r_def)
  then have c2: "kll_double_sketch_get_quantiles_evenly_spaced gq H sketch num (Some results)
               = Returned (Some r)"
    by (simp add: double_evenly_eq)
  have c3: "length r = length results"
    using j assms(4) by (simp add: r_def)
  have c4: "kll_float_sketch_get_quantile gq H sketch (?fr i) = Returned (r ! i)
            \<and> kll_double_sketch_get_quantile gq H sketch (?fr i) = Returned (r ! i)"
    if i: "i < unat num"
      and pre: "\<forall>j\<le>i. \<exists>v. kll_float_sketch_get_quantile gq H sketch (?fr j) = Returned v"
    for i
  proof -
    have "i < j"
    proof (rule ccontr)
      assume "\<not> i < j"
      then have ji: "j \<le> i" and jn: "j < unat num" using i by simp_all
      obtain e where e: "gq s (?fr j) = Inl e"
        using at jn by blast
      obtain v where "kll_float_sketch_get_quantile gq H sketch (?fr j) = Returned v"
        using pre ji by blast
      then show False using e by (simp add: single)
    qed
    then have "r ! i = ?vs i"
      by (simp add: nth_append r_def)
    moreover obtain v where "gq s (?fr i) = Inr v"
      using before \<open>i < j\<close> by blast
    ultimately show ?thesis
      by (simp add: single double_get_quantile_eq)
  qed
  have c5: "r ! i = results ! i" if "unat num \<le> i \<and> i < length results" for i
    using that j by (simp add: nth_append r_def)
  have "kll_float_sketch_get_quantiles_evenly_spaced gq H sketch num (Some results)
               = Returned (Some r)
           \<and> kll_double_sketch_get_quantiles_evenly_spaced gq H sketch num (Some results)
               = Returned (Some r)
           \<and> length r = length results
           \<and> (\<forall>i<unat num.
                 (\<forall>j\<le>i. \<exists>v. kll_float_sketch_get_quantile gq H sketch (?fr j) = Returned v)
                 \<longrightarrow> kll_float_sketch_get_quantile gq H sketch (?fr i) = Returned (r ! i)
                     \<and> kll_double_sketch_get_quantile gq H sketch (?fr i) = Returned (r ! i))
           \<and> (\<forall>i. unat num \<le> i \<and> i < length results \<longrightarrow> r ! i = results ! i)"
  proof (intro conjI allI impI)
    show "kll_float_sketch_get_quantiles_evenly_spaced gq H sketch num (Some results)
               = Returned (Some r)" by (rule c1)
    show "kll_double_sketch_get_quantiles_evenly_spaced gq H sketch num (Some results)
               = Returned (Some r)" by (rule c2)
    show "length r = length results" by (rule c3)
  next
    fix i assume "i < unat num"
      "\<forall>j\<le>i. \<exists>v. kll_float_sketch_get_quantile gq H sketch (?fr j) = Returned v"
    then show "kll_float_sketch_get_quantile gq H sketch (?fr i) = Returned (r ! i)"
      "kll_double_sketch_get_quantile gq H sketch (?fr i) = Returned (r ! i)"
      using c4 by blast+
  next
    fix i assume "unat num \<le> i \<and> i < length results"
    then show "r ! i = results ! i" by (rule c5)
  qed
  then show ?thesis by (rule exI)
qed

text \<open>
  Claim C4, at \<open>num = 1\<close>. The guard of \<open>get_quantiles_evenly_spaced\<close> returns early for
  \<open>num == 0\<close> only. With \<open>num = 1\<close> the loop runs once with the fraction
  \<open>0.0 / (1 - 1)\<close>, which is a NaN, and hands it to \<open>get_quantile\<close>: the call neither
  fails nor has a defined fraction. What comes back is whatever \<open>get_quantile\<close> does with
  a NaN: if it throws, the exception is swallowed and the array is untouched; if it
  returns, the value lands in \<open>results[0]\<close>. For \<open>num \<ge> 2\<close> the lemma
  \<open>get_quantiles_evenly_spaced_matches_single_calls\<close> above gives the first half of the
  claim.
\<close>

theorem get_quantiles_evenly_spaced_single_point:
  assumes "sketch \<noteq> nullptr" and "deref H sketch = Some s"
  shows "double_div_u32 0 (1 - 1) = NaN
     \<and> kll_float_sketch_get_quantiles_evenly_spaced gq H sketch 1 (Some (r # rs)) =
         (case gq s NaN of
            Inl e \<Rightarrow> Returned (Some (r # rs))
          | Inr v \<Rightarrow> Returned (Some (v # rs)))
     \<and> kll_double_sketch_get_quantiles_evenly_spaced gq H sketch 1 (Some (r # rs)) =
         (case gq s NaN of
            Inl e \<Rightarrow> Returned (Some (r # rs))
          | Inr v \<Rightarrow> Returned (Some (v # rs)))"
proof -
  have d: "double_div_u32 0 (1 - 1) = NaN"
    by (simp add: double_div_u32_def)
  have l: "kll_float_sketch_get_quantiles_evenly_spaced_loop gq s 1 0 (r # rs) =
         (case gq s NaN of
            Inl e \<Rightarrow> Returned (Some (r # rs))
          | Inr v \<Rightarrow> Returned (Some (v # rs)))"
    by (subst kll_float_sketch_get_quantiles_evenly_spaced_loop.simps,
        subst kll_float_sketch_get_quantiles_evenly_spaced_loop.simps)
       (simp add: double_div_u32_def split: sum.splits)
  have f: "kll_float_sketch_get_quantiles_evenly_spaced gq H sketch 1 (Some (r # rs)) =
         (case gq s NaN of
            Inl e \<Rightarrow> Returned (Some (r # rs))
          | Inr v \<Rightarrow> Returned (Some (v # rs)))"
    using l by (simp add: float_evenly_live [OF assms])
  then show ?thesis
    using d by (simp add: double_evenly_eq)
qed

theorem get_quantiles_evenly_spaced_single_point_witness:
  "double_div_u32 0 (1 - 1) = NaN
   \<and> kll_float_sketch_get_quantiles_evenly_spaced spec_get_quantile [Some example_sketch] 1 1
       (Some [7, 8, 9]) = Returned (Some [7, 8, 9])
   \<and> kll_double_sketch_get_quantiles_evenly_spaced spec_get_quantile [Some example_sketch] 1 1
       (Some [7, 8, 9]) = Returned (Some [7, 8, 9])"
proof -
  have live: "(1::handle) \<noteq> nullptr" "deref [Some example_sketch] 1 = Some example_sketch"
    by (simp_all add: nullptr_def deref_def)
  have q: "spec_get_quantile example_sketch NaN = Inl RangeError"
    by (simp add: spec_get_quantile_def)
  show ?thesis
    using get_quantiles_evenly_spaced_single_point [OF live, where gq = spec_get_quantile
        and r = 7 and rs = "[8, 9]"] q
    by simp
qed

section \<open>Exceptions that leave the wrapper\<close>

text \<open>
  Claim C2, as the code behaves. \<open>kll_float_sketch_get_quantile\<close> and
  \<open>kll_double_sketch_get_quantile\<close> call \<open>get_quantile\<close> with no \<open>try\<close> block around the
  call. For a live sketch and a fraction outside [0,1], the range error of the library
  is not converted to a default value: it leaves the \<open>extern "C"\<close> function as an
  exception. (The batch functions catch the same exception, see claim C10.)
\<close>

theorem get_quantile_out_of_range_escapes:
  assumes "sketch \<noteq> nullptr" and "deref H sketch = Some s" and "q < 0 \<or> 1 < q"
  shows "kll_float_sketch_get_quantile spec_get_quantile H sketch (Finite q)
           = Escaped RangeError
       \<and> kll_double_sketch_get_quantile spec_get_quantile H sketch (Finite q)
           = Escaped RangeError"
  using assms
  by (auto simp: kll_float_sketch_get_quantile_def kll_double_sketch_get_quantile_def
      member_call_def spec_get_quantile_def)

theorem get_quantile_out_of_range_escapes_witness:
  "kll_float_sketch_get_quantile spec_get_quantile [Some example_sketch] 1 (Finite (3 / 2))
     = Escaped RangeError
   \<and> kll_double_sketch_get_quantile spec_get_quantile [Some example_sketch] 1 (Finite (3 / 2))
     = Escaped RangeError"
proof -
  have live: "(1::handle) \<noteq> nullptr" "deref [Some example_sketch] 1 = Some example_sketch"
    by (simp_all add: nullptr_def deref_def)
  have out: "(3 / 2 :: rat) < 0 \<or> 1 < (3 / 2 :: rat)"
    by simp
  show ?thesis
    by (rule get_quantile_out_of_range_escapes [OF live out])
qed

text \<open>
  Claim C3, as the code behaves. \<open>get_min_value\<close> and \<open>get_max_value\<close> call \<open>get_min_item\<close>
  and \<open>get_max_item\<close> with no \<open>try\<close> block either. For a live, empty sketch the
  empty-sketch error of the library leaves the \<open>extern "C"\<close> function as an exception.
  Such a sketch is what \<open>new_with_k(200)\<close> returns.
\<close>

lemma new_with_k_constructs_empty_sketch:
  "kll_float_sketch_new_with_k spec_new_with_k [] 200 = ([Some empty_sketch], 1)"
  by (simp add: kll_float_sketch_new_with_k_def spec_new_with_k_def new_object_def
      empty_sketch_def MIN_K_def MAX_K_def)

theorem get_min_max_value_on_empty_sketch_escape:
  assumes "sketch \<noteq> nullptr" and "deref H sketch = Some s" and "sketch_n s = 0"
  shows "kll_float_sketch_get_min_value spec_get_min_item H sketch = Escaped EmptySketchError
       \<and> kll_float_sketch_get_max_value spec_get_max_item H sketch = Escaped EmptySketchError
       \<and> kll_double_sketch_get_min_value spec_get_min_item H sketch = Escaped EmptySketchError
       \<and> kll_double_sketch_get_max_value spec_get_max_item H sketch = Escaped EmptySketchError"
  using assms
  by (simp add: kll_float_sketch_get_min_value_def kll_float_sketch_get_max_value_def
      kll_double_sketch_get_min_value_def kll_double_sketch_get_max_value_def
      member_call_def spec_get_min_item_def spec_get_max_item_def spec_is_empty_def)

theorem get_min_max_value_on_empty_sketch_escape_witness:
  "kll_float_sketch_get_min_value spec_get_min_item [Some empty_sketch] 1
     = Escaped EmptySketchError
   \<and> kll_float_sketch_get_max_value spec_get_max_item [Some empty_sketch] 1
     = Escaped EmptySketchError
   \<and> kll_double_sketch_get_min_value spec_get_min_item [Some empty_sketch] 1
     = Escaped EmptySketchError
   \<and> kll_double_sketch_get_max_value spec_get_max_item [Some empty_sketch] 1
     = Escaped EmptySketchError"
proof -
  have live: "(1::handle) \<noteq> nullptr" "deref [Some empty_sketch] 1 = Some empty_sketch"
    by (simp_all add: nullptr_def deref_def)
  have empty: "sketch_n empty_sketch = 0"
    by (simp add: empty_sketch_def)
  show ?thesis
    by (rule get_min_max_value_on_empty_sketch_escape [OF live empty])
qed

section \<open>Construction\<close>

text \<open>
  Claim C8. \<open>new_with_k\<close> constructs the sketch inside \<open>try { ... } catch (...)\<close>. For a
  \<open>k\<close> below the minimum 8 (or above the maximum 65535, which no \<open>uint16_t\<close> is) the
  constructor fails, and the wrapper returns a null handle and allocates nothing. Float
  and double.
\<close>

theorem new_with_k_rejects_invalid_k:
  assumes "unat k < MIN_K \<or> MAX_K < unat k"
  shows "kll_float_sketch_new_with_k spec_new_with_k H k = (H, nullptr)
       \<and> kll_double_sketch_new_with_k spec_new_with_k H k = (H, nullptr)"
  using assms
  by (simp add: kll_float_sketch_new_with_k_def kll_double_sketch_new_with_k_def
      spec_new_with_k_def)

theorem new_with_k_rejects_invalid_k_witness:
  "kll_float_sketch_new_with_k spec_new_with_k [Some example_sketch] 7
     = ([Some example_sketch], nullptr)
   \<and> kll_double_sketch_new_with_k spec_new_with_k [Some example_sketch] 7
     = ([Some example_sketch], nullptr)"
proof -
  have small: "unat (7 :: 16 word) < MIN_K \<or> MAX_K < unat (7 :: 16 word)"
    by (simp add: MIN_K_def)
  show ?thesis
    by (rule new_with_k_rejects_invalid_k [OF small])
qed

section \<open>The codec\<close>

text \<open>
  Little-endian fields and the pieces of a sequence are read back as they were written.
\<close>

lemma length_le_bytes [simp]: "length (le_bytes m v) = m"
  by (induction m arbitrary: v) simp_all

lemma le_nat_le_bytes: "v < 256 ^ m \<Longrightarrow> le_nat (le_bytes m v) = v"
proof (induction m arbitrary: v)
  case 0
  then show ?case by simp
next
  case (Suc m)
  have "v div 256 < 256 ^ m"
    using Suc.prems by (simp add: less_mult_imp_div_less mult.commute)
  then have "le_nat (le_bytes m (v div 256)) = v div 256"
    by (rule Suc.IH)
  moreover have "unat (of_nat (v mod 256) :: 8 word) = v mod 256"
    by (simp add: unat_of_nat)
  ultimately show ?case by simp
qed

lemma split_by_concat: "split_by (map length xss) (concat xss) = xss"
  by (induction xss) simp_all

lemma split_by_fixed_width:
  assumes "\<forall>xs \<in> set xss. length xs = w"
  shows "split_by (replicate (length xss) w) (concat xss) = xss"
proof -
  have "map length xss = replicate (length xss) w"
    using assms by (induction xss) simp_all
  then show ?thesis
    using split_by_concat [of xss] by simp
qed

lemma read_bytes_append: "length a = m \<Longrightarrow> read_bytes m (a @ r) = Some (a, r)"
  by (simp add: read_bytes_def)

lemma read_byte_Cons [simp]: "read_byte (b # r) = Some (b, r)"
  by (simp add: read_byte_def)

lemma bit_flags_byte:
  "bit (flags_byte e s z) 0 = e" "bit (flags_byte e s z) 2 = z"
  by (cases e; cases s; cases z; simp add: flags_byte_def bit_numeral_word_iff)+

lemma word16_of_le_bytes: "of_nat (le_nat (le_bytes 2 (unat (k :: 16 word)))) = k"
proof -
  have "unat k < 256 ^ 2"
    using unsigned_less [of k, where 'a = nat] by simp
  then show ?thesis by (simp add: le_nat_le_bytes)
qed

lemma word64_of_le_bytes: "of_nat (le_nat (le_bytes 8 (unat (n :: 64 word)))) = n"
proof -
  have "unat n < 256 ^ 8"
    using unsigned_less [of n, where 'a = nat] by simp
  then show ?thesis by (simp add: le_nat_le_bytes)
qed

lemma counts_of_le_bytes:
  assumes "list_all (\<lambda>l. length l < 2 ^ 32) ls"
  shows "map le_nat (split_by (replicate (length ls) 4)
           (concat (map (\<lambda>l. le_bytes 4 (length l)) ls))) = map length ls"
proof -
  have "split_by (replicate (length (map (\<lambda>l. le_bytes 4 (length l)) ls)) 4)
          (concat (map (\<lambda>l. le_bytes 4 (length l)) ls)) = map (\<lambda>l. le_bytes 4 (length l)) ls"
    by (rule split_by_fixed_width) auto
  moreover have "le_nat (le_bytes 4 (length l)) = length l" if "l \<in> set ls" for l
  proof -
    have "length l < 256 ^ 4"
      using assms that by (simp add: list_all_iff)
    then show ?thesis by (rule le_nat_le_bytes)
  qed
  ultimately show ?thesis by simp
qed


lemma read_bytes_append2:
  "length a + length b = m \<Longrightarrow> read_bytes m (a @ b @ r) = Some (a @ b, r)"
  by (simp add: read_bytes_def)

lemma read_bytes_0 [simp]: "read_bytes 0 bs = Some ([], bs)"
  by (simp add: read_bytes_def)

lemma length_concat_fixed_width:
  assumes "\<forall>xs \<in> set xss. length xs = w"
  shows "length (concat xss) = w * length xss"
  using assms by (induction xss) simp_all

text \<open>
  The decoder reads from a serialization the fields the encoder wrote, and what follows
  them is the item payload.
\<close>

lemma parse_header_serialize:
  assumes c: "codec_ok c" and v: "valid_sketch s"
  shows "parse_header (item_width c) (spec_serialize c s) = Some (header_of c s, payload_of c s)"
proof -
  let ?w = "item_width c"
  let ?L = "length (levels s)"
  let ?fl = "flags_byte (sketch_n s = 0) (sketch_n s = 1) (is_level_zero_sorted s)"
  let ?ex = "(case min_item s of None \<Rightarrow> [] | Some m \<Rightarrow> encode_item c m)
             @ (case max_item s of None \<Rightarrow> [] | Some m \<Rightarrow> encode_item c m)"
  let ?cs = "concat (map (\<lambda>l. le_bytes 4 (length l)) (levels s))"
  have enc: "length (encode_item c x) = ?w" for x
    using c by (simp add: codec_ok_def)
  have L: "unat (of_nat ?L :: 8 word) = ?L"
    using v by (simp add: valid_sketch_def unat_of_nat)
  have small: "list_all (\<lambda>l. length l < 2 ^ 32) (levels s)"
    using v by (simp add: valid_sketch_def)
  have ex_len: "length ?ex = (if bit ?fl 0 then 0 else 2 * ?w)"
    using v by (cases "min_item s"; cases "max_item s")
      (auto simp: valid_sketch_def bit_flags_byte enc)
  have cs_len: "length ?cs = 4 * ?L"
    using length_concat_fixed_width [of "map (\<lambda>l. le_bytes 4 (length l)) (levels s)" 4]
    by simp
  have ser: "spec_serialize c s =
      format_version # (le_bytes 2 (unat (sketch_k s)) @ (le_bytes 8 (unat (sketch_n s))
        @ (?fl # (?ex @ (of_nat ?L # (?cs @ payload_of c s))))))"
    by (simp add: spec_serialize_def payload_of_def)
  have r_ex: "read_bytes (if bit ?fl 0 then 0 else 2 * ?w) (?ex @ rest) = Some (?ex, rest)"
    for rest
    using ex_len by (intro read_bytes_append) simp
  have r_cs: "read_bytes (4 * ?L) (?cs @ rest) = Some (?cs, rest)" for rest
    using cs_len by (intro read_bytes_append) simp
  show ?thesis
    unfolding ser parse_header_def
    by (simp add: read_bytes_append r_ex r_cs L word16_of_le_bytes word64_of_le_bytes
        counts_of_le_bytes [OF small] header_of_def del: append_assoc)
qed


lemma payload_length:
  assumes "codec_ok c"
  shows "length (payload_of c s) = item_width c * sum_list (map length (levels s))"
proof -
  have "length (payload_of c s) = item_width c * length (map (encode_item c) (concat (levels s)))"
    unfolding payload_of_def using assms
    by (intro length_concat_fixed_width) (auto simp: codec_ok_def)
  then show ?thesis by (simp add: length_concat)
qed

lemma levels_of_payload:
  assumes "codec_ok c"
  shows "split_by (map length (levels s))
           (map (decode_item c)
              (split_by (replicate (sum_list (map length (levels s))) (item_width c))
                 (payload_of c s))) = levels s"
proof -
  let ?xs = "concat (levels s)"
  have "split_by (replicate (length (map (encode_item c) ?xs)) (item_width c))
          (concat (map (encode_item c) ?xs)) = map (encode_item c) ?xs"
    using assms by (intro split_by_fixed_width) (auto simp: codec_ok_def)
  then have "split_by (replicate (sum_list (map length (levels s))) (item_width c))
          (payload_of c s) = map (encode_item c) ?xs"
    by (simp add: payload_of_def length_concat)
  moreover have "map (decode_item c) (map (encode_item c) ?xs) = ?xs"
    using assms by (simp add: codec_ok_def map_idI)
  ultimately show ?thesis
    by (simp add: split_by_concat)
qed

lemma spec_deserialize_serialize:
  assumes c: "codec_ok c" and v: "valid_sketch s"
  shows "spec_deserialize c (spec_serialize c s) = Inr s"
proof -
  let ?h = "header_of c s"
  have enc: "length (encode_item c x) = item_width c" "decode_item c (encode_item c x) = x" for x
    using c by (simp_all add: codec_ok_def)
  have checks: "hdr_version ?h = format_version"
    "\<not> (unat (hdr_k ?h) < MIN_K \<or> MAX_K < unat (hdr_k ?h))"
    "hdr_flags ?h = flags_byte (hdr_n ?h = 0) (hdr_n ?h = 1) (bit (hdr_flags ?h) 2)"
    "hdr_counts ?h \<noteq> []"
    "unat (hdr_n ?h) = weighted_count (hdr_counts ?h)"
    using v by (auto simp: header_of_def valid_sketch_def bit_flags_byte)
  have len: "length (payload_of c s) = item_width c * sum_list (hdr_counts ?h)"
    using payload_length [OF c, of s] by (simp add: header_of_def)
  have lv: "split_by (hdr_counts ?h)
           (map (decode_item c)
              (split_by (replicate (sum_list (hdr_counts ?h)) (item_width c))
                 (payload_of c s))) = levels s"
    using levels_of_payload [OF c, of s] by (simp add: header_of_def)
  have mn: "(if hdr_n ?h = 0 then None
             else Some (decode_item c (take (item_width c) (hdr_extrema ?h)))) = min_item s"
    using v by (cases "min_item s"; cases "max_item s")
      (auto simp: header_of_def valid_sketch_def enc)
  have mx: "(if hdr_n ?h = 0 then None
             else Some (decode_item c (drop (item_width c) (hdr_extrema ?h)))) = max_item s"
    using v by (cases "min_item s"; cases "max_item s")
      (auto simp: header_of_def valid_sketch_def enc)
  have "spec_deserialize c (spec_serialize c s) =
        Inr \<lparr>sketch_k = hdr_k ?h, sketch_n = hdr_n ?h, levels = levels s,
              min_item = min_item s, max_item = max_item s,
              is_level_zero_sorted = bit (hdr_flags ?h) 2\<rparr>"
    unfolding spec_deserialize_def parse_header_serialize [OF c v]
    using checks len by (simp add: lv mn mx)
  also have "\<dots> = Inr s"
    by (simp add: header_of_def bit_flags_byte)
  finally show ?thesis .
qed


lemma read_byte_extend:
  "read_byte p = Some (b, r) \<Longrightarrow> read_byte (p @ t) = Some (b, r @ t)"
  by (cases p) (simp_all add: read_byte_def)

lemma read_bytes_extend:
  "read_bytes m p = Some (a, r) \<Longrightarrow> read_bytes m (p @ t) = Some (a, r @ t)"
  by (auto simp: read_bytes_def split: if_splits)

lemma parse_header_extend:
  assumes "parse_header w p = Some (h, payload)"
  shows "parse_header w (p @ t) = Some (h, payload @ t)"
proof -
  from assms obtain ver r1 kb r2 nb r3 fl r4 ex r5 nl r6 cs where
    s1: "read_byte p = Some (ver, r1)" and
    s2: "read_bytes 2 r1 = Some (kb, r2)" and
    s3: "read_bytes 8 r2 = Some (nb, r3)" and
    s4: "read_byte r3 = Some (fl, r4)" and
    s5: "read_bytes (if bit fl 0 then 0 else 2 * w) r4 = Some (ex, r5)" and
    s6: "read_byte r5 = Some (nl, r6)" and
    s7: "read_bytes (4 * unat nl) r6 = Some (cs, payload)" and
    h: "h = \<lparr>hdr_version = ver, hdr_k = of_nat (le_nat kb), hdr_n = of_nat (le_nat nb),
               hdr_flags = fl, hdr_extrema = ex,
               hdr_counts = map le_nat (split_by (replicate (unat nl) 4) cs)\<rparr>"
    unfolding parse_header_def
    by (auto simp: bind_eq_Some_conv split: prod.splits)
  show ?thesis
    unfolding parse_header_def
    by (simp add: read_byte_extend [OF s1] read_bytes_extend [OF s2] read_bytes_extend [OF s3]
        read_byte_extend [OF s4] read_bytes_extend [OF s5] read_byte_extend [OF s6]
        read_bytes_extend [OF s7] h)
qed

lemma spec_deserialize_error:
  "spec_deserialize c bs = Inl e \<Longrightarrow> e = DeserializationError"
  by (auto simp: spec_deserialize_def split: option.splits prod.splits if_splits)

lemma spec_deserialize_truncated:
  assumes c: "codec_ok c" and v: "valid_sketch s" and m: "m < length (spec_serialize c s)"
  shows "spec_deserialize c (take m (spec_serialize c s)) = Inl DeserializationError"
proof (cases "parse_header (item_width c) (take m (spec_serialize c s))")
  case None
  then show ?thesis by (simp add: spec_deserialize_def)
next
  case (Some hp)
  obtain h payload where hp: "hp = (h, payload)" by (cases hp)
  let ?e = "spec_serialize c s"
  have "parse_header (item_width c) (take m ?e @ drop m ?e) = Some (h, payload @ drop m ?e)"
    using Some hp by (intro parse_header_extend) simp
  then have "Some (h, payload @ drop m ?e) = Some (header_of c s, payload_of c s)"
    using parse_header_serialize [OF c v] by simp
  then have h: "h = header_of c s" and p: "payload @ drop m ?e = payload_of c s"
    by simp_all
  have "length (payload @ drop m ?e) = item_width c * sum_list (hdr_counts h)"
    using payload_length [OF c, of s] by (simp add: p h header_of_def)
  moreover have "0 < length (drop m ?e)"
    using m by simp
  ultimately have "length payload \<noteq> item_width c * sum_list (hdr_counts h)"
    by simp
  then show ?thesis
    using Some hp by (simp add: spec_deserialize_def)
qed

lemma spec_deserialize_version:
  assumes "b \<noteq> format_version"
  shows "spec_deserialize c (b # bs) = Inl DeserializationError"
proof (cases "parse_header (item_width c) (b # bs)")
  case None
  then show ?thesis by (simp add: spec_deserialize_def)
next
  case (Some hp)
  obtain h payload where hp: "hp = (h, payload)" by (cases hp)
  have "hdr_version h = b"
    using Some hp unfolding parse_header_def
    by (auto simp: bind_eq_Some_conv split: prod.splits)
  then show ?thesis
    using Some hp assms by (simp add: spec_deserialize_def)
qed

lemma spec_deserialize_counts:
  assumes "parse_header (item_width c) bs = Some (h, payload)"
    and "length payload \<noteq> item_width c * sum_list (hdr_counts h)"
  shows "spec_deserialize c bs = Inl DeserializationError"
  using assms by (simp add: spec_deserialize_def)

lemma codec_ok_float_codec: "codec_ok float_codec"
proof -
  have "of_nat (le_nat (le_bytes 4 (unat x))) = x" for x :: "32 word"
  proof -
    have "unat x < 256 ^ 4"
      using unsigned_less [of x, where 'a = nat] by simp
    then show ?thesis by (simp add: le_nat_le_bytes)
  qed
  then show ?thesis
    by (simp add: codec_ok_def float_codec_def)
qed

text \<open>
  What the decoder accepts satisfies the invariants of the sketch.
\<close>

lemma length_split_by [simp]: "length (split_by cs xs) = length cs"
  by (induction cs arbitrary: xs) simp_all

lemma map_length_split_by:
  "sum_list cs \<le> length xs \<Longrightarrow> map length (split_by cs xs) = cs"
  by (induction cs arbitrary: xs) simp_all

lemma le_nat_bound: "le_nat bs < 256 ^ length bs"
proof (induction bs)
  case Nil
  then show ?case by simp
next
  case (Cons b bs)
  have "unat b < 256"
    using unsigned_less [of b, where 'a = nat] by simp
  with Cons show ?case by simp
qed

lemma split_by_fixed_bound:
  "p \<in> set (split_by (replicate n w) xs) \<Longrightarrow> length p \<le> w"
  by (induction n arbitrary: xs) auto

lemma parse_header_counts:
  assumes "parse_header w bs = Some (h, payload)"
  shows "length (hdr_counts h) < 256" and "list_all (\<lambda>c. c < 2 ^ 32) (hdr_counts h)"
proof -
  from assms obtain nl :: "8 word" and cs where
    h: "hdr_counts h = map le_nat (split_by (replicate (unat nl) 4) cs)"
    unfolding parse_header_def
    by (auto simp: bind_eq_Some_conv split: prod.splits)
  have "unat nl < 256"
    using unsigned_less [of nl, where 'a = nat] by simp
  then show "length (hdr_counts h) < 256"
    by (simp add: h)
  have "le_nat p < 2 ^ 32" if "p \<in> set (split_by (replicate (unat nl) 4) cs)" for p
  proof -
    have "length p \<le> 4" using that by (rule split_by_fixed_bound)
    then have "(256::nat) ^ length p \<le> 256 ^ 4"
      by (intro power_increasing) simp_all
    with le_nat_bound [of p] show ?thesis by simp
  qed
  then show "list_all (\<lambda>c. c < 2 ^ 32) (hdr_counts h)"
    by (simp add: h list_all_iff)
qed

lemma spec_deserialize_valid:
  assumes "spec_deserialize c bs = Inr s"
  shows "valid_sketch s"
proof -
  from assms obtain h payload where
    p: "parse_header (item_width c) bs = Some (h, payload)"
    and k: "\<not> (unat (hdr_k h) < MIN_K \<or> MAX_K < unat (hdr_k h))"
    and ne: "hdr_counts h \<noteq> []"
    and len: "length payload = item_width c * sum_list (hdr_counts h)"
    and n: "unat (hdr_n h) = weighted_count (hdr_counts h)"
    and s: "s = \<lparr>sketch_k = hdr_k h, sketch_n = hdr_n h,
                     levels = split_by (hdr_counts h)
                       (map (decode_item c)
                          (split_by (replicate (sum_list (hdr_counts h)) (item_width c))
                             payload)),
                     min_item = (if hdr_n h = 0 then None
                                 else Some (decode_item c (take (item_width c) (hdr_extrema h)))),
                     max_item = (if hdr_n h = 0 then None
                                 else Some (decode_item c (drop (item_width c) (hdr_extrema h)))),
                     is_level_zero_sorted = bit (hdr_flags h) 2\<rparr>"
    unfolding spec_deserialize_def
    by (auto split: option.splits prod.splits if_splits)
  let ?items = "map (decode_item c)
                  (split_by (replicate (sum_list (hdr_counts h)) (item_width c)) payload)"
  have lens: "map length (levels s) = hdr_counts h"
    by (simp add: s map_length_split_by)
  have "length (levels s) < 256"
    using parse_header_counts(1) [OF p] by (simp add: s)
  moreover have "list_all (\<lambda>l. length l < 2 ^ 32) (levels s)"
  proof -
    have "list_all (\<lambda>c. c < 2 ^ 32) (map length (levels s))"
      using parse_header_counts(2) [OF p] by (simp only: lens)
    then show ?thesis by (simp add: list_all_iff)
  qed
  moreover have "levels s \<noteq> []"
    using ne lens by auto
  moreover have "unat (sketch_n s) = weighted_count (map length (levels s))"
    using n by (simp only: lens) (simp add: s)
  ultimately show ?thesis
    using k by (simp add: valid_sketch_def) (simp add: s)
qed

lemma double_deserialize_eq: "kll_double_sketch_deserialize = kll_float_sketch_deserialize"
  by (intro ext) (simp add: kll_double_sketch_deserialize_def kll_float_sketch_deserialize_def)

lemma double_serialize_eq: "kll_double_sketch_serialize = kll_float_sketch_serialize"
  by (intro ext) (simp add: kll_double_sketch_serialize_def kll_float_sketch_serialize_def)

lemma float_deserialize_rejected:
  assumes "sz \<le> length buf" and "spec_deserialize c (take sz buf) = Inl DeserializationError"
  shows "kll_float_sketch_deserialize (spec_deserialize c) H (Some buf) sz = Returned (H, nullptr)"
  using assms by (simp add: kll_float_sketch_deserialize_def)

lemma le_bytes_2: "le_bytes 2 v = [of_nat (v mod 256), of_nat (v div 256 mod 256)]"
  by (simp add: numeral_2_eq_2)

lemma example_serialization_prefix:
  "take 3 (spec_serialize float_codec example_sketch) = [1, 200, 0]"
  by (simp add: spec_serialize_def example_sketch_def format_version_def le_bytes_2)

lemma example_serialization_length:
  "length (spec_serialize float_codec example_sketch) = 45"
  by (simp add: spec_serialize_def example_sketch_def float_codec_def)

lemma float_serialize_live:
  assumes "sketch \<noteq> nullptr" and "deref H sketch = Some s" and "new_array (length (ser s))"
  shows "kll_float_sketch_serialize (never_throws ser) new_array H sketch (Some sz)
         = Returned (Some (ser s), Some (length (ser s)))"
  using assms by (simp add: kll_float_sketch_serialize_def never_throws_def)

lemma float_deserialize_accepted:
  assumes "bytes \<noteq> []" and "des bytes = Inr s"
  shows "kll_float_sketch_deserialize des H (Some bytes) (length bytes)
         = Returned (H @ [Some s], Suc (length H))"
  using assms by (simp add: kll_float_sketch_deserialize_def new_object_def)

lemma deref_new_object: "deref (H @ [Some s]) (Suc (length H)) = Some s"
  by (simp add: deref_def nullptr_def)

lemma spec_serialize_not_empty: "spec_serialize c s \<noteq> []"
  by (simp add: spec_serialize_def)

text \<open>
  Claim C6. \<open>deserialize\<close> returns a null handle, allocates nothing and stays within the
  \<open>size\<close> bytes it is given
  \<^item> for a null data pointer and for a zero size (the guard of the wrapper),
  \<^item> for a truncated input: the first \<open>m\<close> bytes of the serialization of a well-formed
    sketch, \<open>m\<close> less than its length (the buffer may be longer than \<open>m\<close>),
  \<^item> for an input whose first byte is not the supported format-version tag,
  \<^item> for an input whose header declares level sizes that do not match the length of
    the payload,
  because the decoder fails with its malformed-input error and the wrapper catches it.
  And when \<open>deserialize\<close> does return a non-null handle, the sketch behind it is what the
  decoder returned for the input and satisfies the invariants of the sketch: no corrupted
  sketch is constructed. Float and double.
\<close>

theorem deserialize_rejects_malformed_input:
  assumes "codec_ok c"
  shows "kll_float_sketch_deserialize (spec_deserialize c) H None sz = Returned (H, nullptr)
     \<and> kll_double_sketch_deserialize (spec_deserialize c) H None sz = Returned (H, nullptr)
     \<and> kll_float_sketch_deserialize (spec_deserialize c) H data 0 = Returned (H, nullptr)
     \<and> kll_double_sketch_deserialize (spec_deserialize c) H data 0 = Returned (H, nullptr)
     \<and> (valid_sketch s \<and> m < length (spec_serialize c s) \<and> m \<le> length buf
          \<and> take m buf = take m (spec_serialize c s)
        \<longrightarrow> kll_float_sketch_deserialize (spec_deserialize c) H (Some buf) m
              = Returned (H, nullptr)
          \<and> kll_double_sketch_deserialize (spec_deserialize c) H (Some buf) m
              = Returned (H, nullptr))
     \<and> (b \<noteq> format_version
        \<longrightarrow> kll_float_sketch_deserialize (spec_deserialize c) H (Some (b # bs))
                (length (b # bs)) = Returned (H, nullptr)
          \<and> kll_double_sketch_deserialize (spec_deserialize c) H (Some (b # bs))
                (length (b # bs)) = Returned (H, nullptr))
     \<and> (parse_header (item_width c) bytes = Some (h, payload)
          \<and> length payload \<noteq> item_width c * sum_list (hdr_counts h)
        \<longrightarrow> kll_float_sketch_deserialize (spec_deserialize c) H (Some bytes) (length bytes)
              = Returned (H, nullptr)
          \<and> kll_double_sketch_deserialize (spec_deserialize c) H (Some bytes) (length bytes)
              = Returned (H, nullptr))
     \<and> (kll_float_sketch_deserialize (spec_deserialize c) H (Some bytes') (length bytes')
            = Returned (H', sketch) \<and> sketch \<noteq> nullptr
        \<longrightarrow> (\<exists>s'. spec_deserialize c bytes' = Inr s' \<and> deref H' sketch = Some s'
                  \<and> valid_sketch s'))"
proof -
  have null: "kll_float_sketch_deserialize (spec_deserialize c) H None sz = Returned (H, nullptr)"
    by (simp add: kll_float_sketch_deserialize_def)
  have zero: "kll_float_sketch_deserialize (spec_deserialize c) H data 0 = Returned (H, nullptr)"
    by (simp add: kll_float_sketch_deserialize_def split: option.splits)
  have trunc: "kll_float_sketch_deserialize (spec_deserialize c) H (Some buf) m
      = Returned (H, nullptr)"
    if "valid_sketch s \<and> m < length (spec_serialize c s) \<and> m \<le> length buf
          \<and> take m buf = take m (spec_serialize c s)"
  proof (rule float_deserialize_rejected)
    show "m \<le> length buf" using that by simp
    show "spec_deserialize c (take m buf) = Inl DeserializationError"
      using that spec_deserialize_truncated [OF assms, of s m] by simp
  qed
  have ver: "kll_float_sketch_deserialize (spec_deserialize c) H (Some (b # bs))
                (length (b # bs)) = Returned (H, nullptr)"
    if "b \<noteq> format_version"
    using spec_deserialize_version [OF that, of c bs]
    by (intro float_deserialize_rejected) simp_all
  have cnt: "kll_float_sketch_deserialize (spec_deserialize c) H (Some bytes) (length bytes)
              = Returned (H, nullptr)"
    if "parse_header (item_width c) bytes = Some (h, payload)
          \<and> length payload \<noteq> item_width c * sum_list (hdr_counts h)"
    using that spec_deserialize_counts [of c bytes h payload]
    by (intro float_deserialize_rejected) simp_all
  have acc: "\<exists>s'. spec_deserialize c bytes' = Inr s' \<and> deref H' sketch = Some s'
                  \<and> valid_sketch s'"
    if "kll_float_sketch_deserialize (spec_deserialize c) H (Some bytes') (length bytes')
            = Returned (H', sketch) \<and> sketch \<noteq> nullptr"
  proof -
    from that obtain s' where s': "spec_deserialize c bytes' = Inr s'"
      and new: "H' = H @ [Some s']" "sketch = Suc (length H)"
      by (auto simp: kll_float_sketch_deserialize_def new_object_def
          split: if_splits sum.splits)
    have "deref H' sketch = Some s'"
      by (simp add: new deref_new_object)
    moreover have "valid_sketch s'"
      using s' by (rule spec_deserialize_valid)
    ultimately show ?thesis using s' by blast
  qed
  show ?thesis
    using null zero trunc ver cnt acc by (simp add: double_deserialize_eq)
qed

theorem deserialize_rejects_malformed_input_witness:
  "kll_float_sketch_deserialize (spec_deserialize float_codec) [Some example_sketch] None 45
     = Returned ([Some example_sketch], nullptr)
   \<and> kll_double_sketch_deserialize (spec_deserialize float_codec) [Some example_sketch] None 45
     = Returned ([Some example_sketch], nullptr)
   \<and> kll_float_sketch_deserialize (spec_deserialize float_codec) [Some example_sketch]
       (Some [1, 200, 0]) 0 = Returned ([Some example_sketch], nullptr)
   \<and> kll_double_sketch_deserialize (spec_deserialize float_codec) [Some example_sketch]
       (Some [1, 200, 0]) 0 = Returned ([Some example_sketch], nullptr)
   \<and> kll_float_sketch_deserialize (spec_deserialize float_codec) [Some example_sketch]
       (Some [1, 200, 0]) 3 = Returned ([Some example_sketch], nullptr)
   \<and> kll_double_sketch_deserialize (spec_deserialize float_codec) [Some example_sketch]
       (Some [1, 200, 0]) 3 = Returned ([Some example_sketch], nullptr)
   \<and> kll_float_sketch_deserialize (spec_deserialize float_codec) [Some example_sketch]
       (Some (9 # [200, 0, 0, 0, 0, 0, 0, 0, 0, 0, 1, 1, 0, 0, 0, 0]))
       (length (9 # [200, 0, 0, 0, 0, 0, 0, 0, 0, 0, 1, 1, 0, 0, 0, 0 :: 8 word]))
       = Returned ([Some example_sketch], nullptr)
   \<and> kll_double_sketch_deserialize (spec_deserialize float_codec) [Some example_sketch]
       (Some (9 # [200, 0, 0, 0, 0, 0, 0, 0, 0, 0, 1, 1, 0, 0, 0, 0]))
       (length (9 # [200, 0, 0, 0, 0, 0, 0, 0, 0, 0, 1, 1, 0, 0, 0, 0 :: 8 word]))
       = Returned ([Some example_sketch], nullptr)
   \<and> kll_float_sketch_deserialize (spec_deserialize float_codec) [Some example_sketch]
       (Some [1, 200, 0, 0, 0, 0, 0, 0, 0, 0, 0, 1, 1, 1, 0, 0, 0])
       (length [1, 200, 0, 0, 0, 0, 0, 0, 0, 0, 0, 1, 1, 1, 0, 0, 0 :: 8 word])
       = Returned ([Some example_sketch], nullptr)
   \<and> kll_double_sketch_deserialize (spec_deserialize float_codec) [Some example_sketch]
       (Some [1, 200, 0, 0, 0, 0, 0, 0, 0, 0, 0, 1, 1, 1, 0, 0, 0])
       (length [1, 200, 0, 0, 0, 0, 0, 0, 0, 0, 0, 1, 1, 1, 0, 0, 0 :: 8 word])
       = Returned ([Some example_sketch], nullptr)
   \<and> (\<exists>s'. spec_deserialize float_codec (spec_serialize float_codec example_sketch) = Inr s'
          \<and> deref ([Some example_sketch] @ [Some example_sketch])
               (Suc (length [Some example_sketch])) = Some s'
          \<and> valid_sketch s')"
proof -
  let ?e = "spec_serialize float_codec example_sketch"
  have acc: "kll_float_sketch_deserialize (spec_deserialize float_codec) [Some example_sketch]
        (Some ?e) (length ?e)
      = Returned ([Some example_sketch] @ [Some example_sketch],
                  Suc (length [Some example_sketch]))
      \<and> Suc (length [Some example_sketch]) \<noteq> nullptr"
    using float_deserialize_accepted [where des = "spec_deserialize float_codec"
        and bytes = ?e and s = example_sketch and H = "[Some example_sketch]",
        OF spec_serialize_not_empty
          spec_deserialize_serialize [OF codec_ok_float_codec valid_example_sketch]]
    by (simp add: nullptr_def)
  let ?bad = "[1, 200, 0, 0, 0, 0, 0, 0, 0, 0, 0, 1, 1, 1, 0, 0, 0] :: 8 word list"
  let ?h = "\<lparr>hdr_version = 1, hdr_k = 200, hdr_n = 0, hdr_flags = 1, hdr_extrema = [],
             hdr_counts = [1]\<rparr>"
  have trunc: "valid_sketch example_sketch
      \<and> 3 < length (spec_serialize float_codec example_sketch)
      \<and> 3 \<le> length [1, 200, 0 :: 8 word]
      \<and> take 3 [1, 200, 0] = take 3 (spec_serialize float_codec example_sketch)"
    by (simp add: valid_example_sketch example_serialization_prefix
        example_serialization_length)
  have ver: "(9 :: 8 word) \<noteq> format_version"
    by (simp add: format_version_def)
  have cnt: "parse_header (item_width float_codec) ?bad = Some (?h, [])
      \<and> length ([] :: 8 word list) \<noteq> item_width float_codec * sum_list (hdr_counts ?h)"
    by (simp add: parse_header_def read_byte_def read_bytes_def float_codec_def)
  note T = deserialize_rejects_malformed_input [OF codec_ok_float_codec,
        where H = "[Some example_sketch]" and sz = 45 and data = "Some [1, 200, 0]"
        and s = example_sketch and m = 3 and buf = "[1, 200, 0]"
        and b = 9 and bs = "[200, 0, 0, 0, 0, 0, 0, 0, 0, 0, 1, 1, 0, 0, 0, 0]"
        and bytes = ?bad and h = ?h and payload = "[]" and bytes' = ?e
        and H' = "[Some example_sketch] @ [Some example_sketch]"
        and sketch = "Suc (length [Some example_sketch])"]
  note T4 = T [THEN conjunct2, THEN conjunct2, THEN conjunct2, THEN conjunct2]
  note q5 = T4 [THEN conjunct1, THEN mp, OF trunc]
  note q6 = T4 [THEN conjunct2, THEN conjunct1, THEN mp, OF ver]
  note q7 = T4 [THEN conjunct2, THEN conjunct2, THEN conjunct1, THEN mp, OF cnt]
  note q8 = T4 [THEN conjunct2, THEN conjunct2, THEN conjunct2, THEN mp, OF acc]
  show ?thesis
    using T [THEN conjunct1] T [THEN conjunct2, THEN conjunct1]
      T [THEN conjunct2, THEN conjunct2, THEN conjunct1]
      T [THEN conjunct2, THEN conjunct2, THEN conjunct2, THEN conjunct1]
      q5 [THEN conjunct1] q5 [THEN conjunct2] q6 [THEN conjunct1] q6 [THEN conjunct2]
      q7 [THEN conjunct1] q7 [THEN conjunct2] q8
    by (intro conjI) assumption+
qed

text \<open>
  Claim C7. For a live handle to a well-formed sketch, \<open>serialize\<close> returns the bytes of
  the sketch and their number in \<open>*size\<close> (when the byte array can be allocated), and
  \<open>deserialize\<close> of these bytes returns a handle to a new object whose observable state is
  the same: \<open>get_k\<close>, \<open>get_n\<close>, \<open>get_min_value\<close>, \<open>get_max_value\<close>, and \<open>get_rank\<close> and
  \<open>get_quantile\<close> for every argument give the same outcome on the new handle as on the old
  one (also when that outcome is an exception, as for the extrema of an empty sketch).
  Float and double.
\<close>

theorem serialize_deserialize_round_trip:
  assumes "codec_ok c" and "valid_sketch s"
    and "sketch \<noteq> nullptr" and "deref H sketch = Some s"
    and "new_array (length (spec_serialize c s))"
  shows "kll_float_sketch_serialize (never_throws (spec_serialize c)) new_array H sketch (Some sz)
           = Returned (Some (spec_serialize c s), Some (length (spec_serialize c s)))
     \<and> kll_float_sketch_deserialize (spec_deserialize c) H (Some (spec_serialize c s))
           (length (spec_serialize c s)) = Returned (H @ [Some s], Suc (length H))
     \<and> Suc (length H) \<noteq> nullptr
     \<and> kll_float_sketch_get_k (never_throws spec_get_k) (H @ [Some s]) (Suc (length H))
         = kll_float_sketch_get_k (never_throws spec_get_k) H sketch
     \<and> kll_float_sketch_get_n (never_throws spec_get_n) (H @ [Some s]) (Suc (length H))
         = kll_float_sketch_get_n (never_throws spec_get_n) H sketch
     \<and> kll_float_sketch_get_min_value spec_get_min_item (H @ [Some s]) (Suc (length H))
         = kll_float_sketch_get_min_value spec_get_min_item H sketch
     \<and> kll_float_sketch_get_max_value spec_get_max_item (H @ [Some s]) (Suc (length H))
         = kll_float_sketch_get_max_value spec_get_max_item H sketch
     \<and> (\<forall>v. kll_float_sketch_get_rank spec_get_rank (H @ [Some s]) (Suc (length H)) v
             = kll_float_sketch_get_rank spec_get_rank H sketch v)
     \<and> (\<forall>f. kll_float_sketch_get_quantile spec_get_quantile (H @ [Some s]) (Suc (length H)) f
             = kll_float_sketch_get_quantile spec_get_quantile H sketch f)
     \<and> kll_double_sketch_serialize (never_throws (spec_serialize c)) new_array H sketch (Some sz)
           = Returned (Some (spec_serialize c s), Some (length (spec_serialize c s)))
     \<and> kll_double_sketch_deserialize (spec_deserialize c) H (Some (spec_serialize c s))
           (length (spec_serialize c s)) = Returned (H @ [Some s], Suc (length H))
     \<and> kll_double_sketch_get_k (never_throws spec_get_k) (H @ [Some s]) (Suc (length H))
         = kll_double_sketch_get_k (never_throws spec_get_k) H sketch
     \<and> kll_double_sketch_get_n (never_throws spec_get_n) (H @ [Some s]) (Suc (length H))
         = kll_double_sketch_get_n (never_throws spec_get_n) H sketch
     \<and> kll_double_sketch_get_min_value spec_get_min_item (H @ [Some s]) (Suc (length H))
         = kll_double_sketch_get_min_value spec_get_min_item H sketch
     \<and> kll_double_sketch_get_max_value spec_get_max_item (H @ [Some s]) (Suc (length H))
         = kll_double_sketch_get_max_value spec_get_max_item H sketch
     \<and> (\<forall>v. kll_double_sketch_get_rank spec_get_rank (H @ [Some s]) (Suc (length H)) v
             = kll_double_sketch_get_rank spec_get_rank H sketch v)
     \<and> (\<forall>f. kll_double_sketch_get_quantile spec_get_quantile (H @ [Some s]) (Suc (length H)) f
             = kll_double_sketch_get_quantile spec_get_quantile H sketch f)"
proof -
  have ser: "kll_float_sketch_serialize (never_throws (spec_serialize c)) new_array H sketch
      (Some sz) = Returned (Some (spec_serialize c s), Some (length (spec_serialize c s)))"
    using assms(3,4,5) by (rule float_serialize_live)
  have des: "kll_float_sketch_deserialize (spec_deserialize c) H (Some (spec_serialize c s))
           (length (spec_serialize c s)) = Returned (H @ [Some s], Suc (length H))"
    using spec_serialize_not_empty spec_deserialize_serialize [OF assms(1,2)]
    by (rule float_deserialize_accepted)
  have new: "Suc (length H) \<noteq> nullptr" "deref (H @ [Some s]) (Suc (length H)) = Some s"
    by (simp_all add: nullptr_def deref_new_object)
  have call: "member_call (H @ [Some s]) (Suc (length H)) f = member_call H sketch f" for f
    using assms(4) new(2) by (simp add: member_call_def)
  show ?thesis
    using ser des new(1) assms(3)
    by (simp add: kll_float_sketch_get_k_def kll_float_sketch_get_n_def
        kll_float_sketch_get_min_value_def kll_float_sketch_get_max_value_def
        kll_float_sketch_get_rank_def kll_float_sketch_get_quantile_def
        kll_double_sketch_get_k_def kll_double_sketch_get_n_def
        kll_double_sketch_get_min_value_def kll_double_sketch_get_max_value_def
        kll_double_sketch_get_rank_def kll_double_sketch_get_quantile_def
        double_serialize_eq double_deserialize_eq call)
qed

theorem serialize_deserialize_round_trip_witness:
  "kll_float_sketch_serialize (never_throws (spec_serialize float_codec)) (\<lambda>n. True)
       [Some example_sketch] 1 (Some 0)
     = Returned (Some (spec_serialize float_codec example_sketch),
                 Some (length (spec_serialize float_codec example_sketch)))
   \<and> kll_float_sketch_deserialize (spec_deserialize float_codec) [Some example_sketch]
       (Some (spec_serialize float_codec example_sketch))
       (length (spec_serialize float_codec example_sketch))
     = Returned ([Some example_sketch] @ [Some example_sketch], Suc (length [Some example_sketch]))
   \<and> kll_float_sketch_get_k (never_throws spec_get_k)
       ([Some example_sketch] @ [Some example_sketch]) (Suc (length [Some example_sketch]))
     = kll_float_sketch_get_k (never_throws spec_get_k) [Some example_sketch] 1
   \<and> kll_float_sketch_get_quantile spec_get_quantile
       ([Some example_sketch] @ [Some example_sketch]) (Suc (length [Some example_sketch]))
       (Finite (1 / 2))
     = kll_float_sketch_get_quantile spec_get_quantile [Some example_sketch] 1 (Finite (1 / 2))
   \<and> kll_double_sketch_deserialize (spec_deserialize float_codec) [Some example_sketch]
       (Some (spec_serialize float_codec example_sketch))
       (length (spec_serialize float_codec example_sketch))
     = Returned ([Some example_sketch] @ [Some example_sketch], Suc (length [Some example_sketch]))"
proof -
  have live: "(1::handle) \<noteq> nullptr" "deref [Some example_sketch] 1 = Some example_sketch"
    by (simp_all add: nullptr_def deref_def)
  have alloc: "(\<lambda>n. True) (length (spec_serialize float_codec example_sketch))"
    by simp
  note T = serialize_deserialize_round_trip [OF codec_ok_float_codec valid_example_sketch live,
      of "\<lambda>n. True" 0, OF alloc]
  show ?thesis
    using T by blast
qed

section \<open>The two instantiations\<close>

text \<open>
  Claim C9. The double functions are the float functions with the item type replaced. In
  the embedding the item type is a type parameter of both families, so the replacement is
  a type instantiation and the statement is an equality of functions: each exported
  function of the double family equals its float counterpart (same null-handle defaults,
  same guards, same calls into the library, same loops).
\<close>

theorem double_family_is_float_family:
  "kll_double_sketch_new = kll_float_sketch_new
   \<and> kll_double_sketch_new_with_k = kll_float_sketch_new_with_k
   \<and> kll_double_sketch_delete = kll_float_sketch_delete
   \<and> kll_double_sketch_update = kll_float_sketch_update
   \<and> kll_double_sketch_merge = kll_float_sketch_merge
   \<and> kll_double_sketch_is_empty = kll_float_sketch_is_empty
   \<and> kll_double_sketch_get_k = kll_float_sketch_get_k
   \<and> kll_double_sketch_get_n = kll_float_sketch_get_n
   \<and> kll_double_sketch_get_num_retained = kll_float_sketch_get_num_retained
   \<and> kll_double_sketch_is_estimation_mode = kll_float_sketch_is_estimation_mode
   \<and> kll_double_sketch_get_min_value = kll_float_sketch_get_min_value
   \<and> kll_double_sketch_get_max_value = kll_float_sketch_get_max_value
   \<and> kll_double_sketch_get_quantile = kll_float_sketch_get_quantile
   \<and> kll_double_sketch_get_rank = kll_float_sketch_get_rank
   \<and> kll_double_sketch_serialize = kll_float_sketch_serialize
   \<and> kll_double_sketch_deserialize = kll_float_sketch_deserialize
   \<and> kll_double_sketch_get_quantiles = kll_float_sketch_get_quantiles
   \<and> kll_double_sketch_get_quantiles_evenly_spaced = kll_float_sketch_get_quantiles_evenly_spaced"
  by (intro conjI ext)
     (simp_all add: kll_double_sketch_new_def kll_float_sketch_new_def kll_double_sketch_new_with_k_def kll_float_sketch_new_with_k_def kll_double_sketch_delete_def kll_float_sketch_delete_def kll_double_sketch_update_def kll_float_sketch_update_def kll_double_sketch_merge_def kll_float_sketch_merge_def kll_double_sketch_is_empty_def kll_float_sketch_is_empty_def kll_double_sketch_get_k_def kll_float_sketch_get_k_def kll_double_sketch_get_n_def kll_float_sketch_get_n_def kll_double_sketch_get_num_retained_def kll_float_sketch_get_num_retained_def kll_double_sketch_is_estimation_mode_def kll_float_sketch_is_estimation_mode_def kll_double_sketch_get_min_value_def kll_float_sketch_get_min_value_def kll_double_sketch_get_max_value_def kll_float_sketch_get_max_value_def kll_double_sketch_get_quantile_def kll_float_sketch_get_quantile_def kll_double_sketch_get_rank_def kll_float_sketch_get_rank_def kll_double_sketch_serialize_def kll_float_sketch_serialize_def kll_double_sketch_deserialize_def kll_float_sketch_deserialize_def kll_double_sketch_get_quantiles_def kll_float_sketch_get_quantiles_def kll_double_sketch_get_quantiles_evenly_spaced_def kll_float_sketch_get_quantiles_evenly_spaced_def
        double_quantiles_loop_eq double_evenly_loop_eq split: option.splits)

end
